theory Spec2Isabelle
  imports Main
begin

section \<open>The store (database.js)\<close>

subsection \<open>Tables\<close>

text \<open>
  The three tables of \<open>createTables\<close>. A row is a record of the columns the handlers and
  routes read or write; the uuid primary keys and \<open>created_at\<close> are left out (nothing reads
  them). \<open>plan_type\<close> and \<open>payment_status\<close> are only ever written from string literals
  of the code and carry a CHECK constraint, so they are enumerations; \<open>status\<close> and
  \<open>feature_type\<close> receive strings from outside (the billing event, the URL) and stay
  strings, their CHECK constraints being evaluated when a row is written. Timestamps are
  milliseconds since the epoch.
\<close>

datatype plan = Free | Pro | Premium

datatype pay_status = PayActive | PayFailed | PayPending

record user_row =
  u_id :: string
  u_email :: string

record sub_row =
  s_user_id :: string
  stripe_customer_id :: "string option"
  stripe_subscription_id :: "string option"
  status :: string
  plan_type :: plan
  current_period_start :: "int option"
  current_period_end :: "int option"
  last_payment_date :: "int option"
  payment_status :: pay_status
  s_updated_at :: int

record usage_row =
  g_user_id :: string
  feature_type :: string
  usage_count :: int
  last_reset_date :: int
  g_updated_at :: int

text \<open>
  A store operation fails either because a constraint of the schema rejects the statement
  or because the storage itself fails. The second cannot be computed from the tables, so the
  state carries a script \<open>faults\<close>: each call of \<open>run\<close>, \<open>get\<close> or \<open>all\<close> takes the next
  entry, and \<open>True\<close> makes that call reject. An empty script means no storage failure.
  \<open>console\<close> collects what the code writes with \<open>console.error\<close>. The third error is
  not the store's: it is what \<open>toISOString\<close> throws for an invalid date.
\<close>

datatype error = StorageFailure | ConstraintFailed | RangeError

record db =
  users :: "user_row list"
  user_subscriptions :: "sub_row list"
  user_usage :: "usage_row list"
  faults :: "bool list"
  console :: "string list"

type_synonym 'a outcome = "(error + 'a) \<times> db"

definition next_fault :: "db \<Rightarrow> bool" where
  "next_fault d = (case faults d of [] \<Rightarrow> False | b # _ \<Rightarrow> b)"

definition consume_fault :: "db \<Rightarrow> db" where
  "consume_fault d = d\<lparr>faults := tl (faults d)\<rparr>"

definition console_error :: "string \<Rightarrow> db \<Rightarrow> db" where
  "console_error msg d = d\<lparr>console := console d @ [msg]\<rparr>"

subsection \<open>run, get, all\<close>

text \<open>
  \<open>get\<close> and \<open>all\<close> resolve with the result of a query; \<open>run\<close> executes a statement, which
  a constraint may reject (\<open>None\<close>) and which then changes nothing. All three log
  \<open>Database error:\<close> and reject on an error.
\<close>

definition db_get :: "(db \<Rightarrow> 'a) \<Rightarrow> db \<Rightarrow> 'a outcome" where
  "db_get q d =
     (if next_fault d
      then (Inl StorageFailure, console_error ''Database error:'' (consume_fault d))
      else (Inr (q d), consume_fault d))"

definition db_run :: "(db \<Rightarrow> db option) \<Rightarrow> db \<Rightarrow> unit outcome" where
  "db_run stmt d =
     (if next_fault d
      then (Inl StorageFailure, console_error ''Database error:'' (consume_fault d))
      else (case stmt (consume_fault d) of
              None \<Rightarrow> (Inl ConstraintFailed, console_error ''Database error:'' (consume_fault d))
            | Some d' \<Rightarrow> (Inr (), d')))"

text \<open>\<open>await m\<close> followed by the rest of an async function; a rejection skips the rest.\<close>

definition await :: "'a outcome \<Rightarrow> ('a \<Rightarrow> db \<Rightarrow> 'b outcome) \<Rightarrow> 'b outcome" where
  "await m k = (case m of (Inl e, d) \<Rightarrow> (Inl e, d) | (Inr x, d) \<Rightarrow> k x d)"

text \<open>\<open>try { m } catch (error) { h }\<close>\<close>

definition try_catch :: "'a outcome \<Rightarrow> (error \<Rightarrow> db \<Rightarrow> 'a outcome) \<Rightarrow> 'a outcome" where
  "try_catch m h = (case m of (Inl e, d) \<Rightarrow> h e d | (Inr x, d) \<Rightarrow> (Inr x, d))"

subsection \<open>Users\<close>

definition getUserByEmail :: "string \<Rightarrow> db \<Rightarrow> user_row option outcome" where
  "getUserByEmail e = db_get (\<lambda>d. find (\<lambda>u. u_email u = e) (users d))"

subsection \<open>Subscriptions\<close>

text \<open>
  The \<open>subscriptionData\<close> object: a column is set when its key is present (\<open>Some\<close>). The two
  references may be present and null.
\<close>

record subscription_data =
  set_stripe_customer_id :: "string option option"
  set_stripe_subscription_id :: "string option option"
  set_status :: "string option"
  set_plan_type :: "plan option"
  set_current_period_start :: "int option"
  set_current_period_end :: "int option"
  set_last_payment_date :: "int option"
  set_payment_status :: "pay_status option"
  set_updated_at :: "int option"

definition no_data :: subscription_data where
  "no_data = \<lparr>set_stripe_customer_id = None, set_stripe_subscription_id = None,
     set_status = None, set_plan_type = None, set_current_period_start = None,
     set_current_period_end = None, set_last_payment_date = None,
     set_payment_status = None, set_updated_at = None\<rparr>"

definition apply_data :: "subscription_data \<Rightarrow> sub_row \<Rightarrow> sub_row" where
  "apply_data sd r = r\<lparr>
     stripe_customer_id :=
       (case set_stripe_customer_id sd of None \<Rightarrow> stripe_customer_id r | Some v \<Rightarrow> v),
     stripe_subscription_id :=
       (case set_stripe_subscription_id sd of None \<Rightarrow> stripe_subscription_id r | Some v \<Rightarrow> v),
     status := (case set_status sd of None \<Rightarrow> status r | Some v \<Rightarrow> v),
     plan_type := (case set_plan_type sd of None \<Rightarrow> plan_type r | Some v \<Rightarrow> v),
     current_period_start :=
       (case set_current_period_start sd of None \<Rightarrow> current_period_start r | Some v \<Rightarrow> Some v),
     current_period_end :=
       (case set_current_period_end sd of None \<Rightarrow> current_period_end r | Some v \<Rightarrow> Some v),
     last_payment_date :=
       (case set_last_payment_date sd of None \<Rightarrow> last_payment_date r | Some v \<Rightarrow> Some v),
     payment_status := (case set_payment_status sd of None \<Rightarrow> payment_status r | Some v \<Rightarrow> v),
     s_updated_at := (case set_updated_at sd of None \<Rightarrow> s_updated_at r | Some v \<Rightarrow> v)\<rparr>"

text \<open>The column defaults of \<open>user_subscriptions\<close>.\<close>

definition default_sub :: "string \<Rightarrow> int \<Rightarrow> sub_row" where
  "default_sub userId now = \<lparr>s_user_id = userId, stripe_customer_id = None,
     stripe_subscription_id = None, status = ''free'', plan_type = Free,
     current_period_start = None, current_period_end = None, last_payment_date = None,
     payment_status = PayActive, s_updated_at = now\<rparr>"

text \<open>\<open>CHECK (status IN (...))\<close>, evaluated for a statement that writes the column.\<close>

definition status_check :: "subscription_data \<Rightarrow> bool" where
  "status_check sd =
     (case set_status sd of
        None \<Rightarrow> True
      | Some s \<Rightarrow> s \<in> set [''free'', ''active'', ''canceled'', ''past_due'', ''trialing''])"

text \<open>
  \<open>stripe_subscription_id TEXT UNIQUE\<close>: a statement that writes a reference \<open>v\<close> other than
  NULL is rejected when the table would hold \<open>v\<close> in two rows.
\<close>

definition unique_check :: "subscription_data \<Rightarrow> sub_row list \<Rightarrow> bool" where
  "unique_check sd rows =
     (case set_stripe_subscription_id sd of
        Some (Some v) \<Rightarrow> length (filter (\<lambda>r. stripe_subscription_id r = Some v) rows) \<le> 1
      | _ \<Rightarrow> True)"

text \<open>\<open>UPDATE user_subscriptions SET ... WHERE wh\<close>; no row matched, nothing is checked.\<close>

definition update_subs :: "(sub_row \<Rightarrow> bool) \<Rightarrow> subscription_data \<Rightarrow> db \<Rightarrow> db option" where
  "update_subs wh sd d =
     (let rows = map (\<lambda>r. if wh r then apply_data sd r else r) (user_subscriptions d)
      in if filter wh (user_subscriptions d) = [] then Some d
         else if status_check sd \<and> unique_check sd rows
         then Some (d\<lparr>user_subscriptions := rows\<rparr>)
         else None)"

text \<open>\<open>INSERT INTO user_subscriptions (id, user_id, ...) VALUES (...)\<close>\<close>

definition insert_sub :: "string \<Rightarrow> subscription_data \<Rightarrow> int \<Rightarrow> db \<Rightarrow> db option" where
  "insert_sub userId sd now d =
     (let rows = user_subscriptions d @ [apply_data sd (default_sub userId now)]
      in if status_check sd \<and> unique_check sd rows
         then Some (d\<lparr>user_subscriptions := rows\<rparr>)
         else None)"

definition getUserSubscription :: "string \<Rightarrow> db \<Rightarrow> sub_row option outcome" where
  "getUserSubscription userId =
     db_get (\<lambda>d. find (\<lambda>s. s_user_id s = userId) (user_subscriptions d))"

definition updateUserSubscription ::
  "string \<Rightarrow> subscription_data \<Rightarrow> int \<Rightarrow> db \<Rightarrow> unit outcome" where
  "updateUserSubscription userId sd now d =
     await (db_get (\<lambda>d. find (\<lambda>s. s_user_id s = userId) (user_subscriptions d)) d)
       (\<lambda>existing.
          case existing of
            Some _ \<Rightarrow> db_run (update_subs (\<lambda>s. s_user_id s = userId) sd)
          | None \<Rightarrow> db_run (insert_sub userId sd now))"

text \<open>
  The reference of an event may be null; \<open>stripe_subscription_id = NULL\<close> holds of no row.
\<close>

definition has_stripe_id :: "string option \<Rightarrow> sub_row \<Rightarrow> bool" where
  "has_stripe_id sid r = (case sid of None \<Rightarrow> False | Some v \<Rightarrow> stripe_subscription_id r = Some v)"

definition updateSubscriptionByStripeId ::
  "string option \<Rightarrow> subscription_data \<Rightarrow> db \<Rightarrow> unit outcome" where
  "updateSubscriptionByStripeId stripeSubscriptionId sd =
     db_run (update_subs (has_stripe_id stripeSubscriptionId) sd)"

definition getSubscriptionByStripeId :: "string option \<Rightarrow> db \<Rightarrow> sub_row option outcome" where
  "getSubscriptionByStripeId stripeSubscriptionId =
     db_get (\<lambda>d. find (has_stripe_id stripeSubscriptionId) (user_subscriptions d))"

subsection \<open>Usage\<close>

definition is_usage_of :: "string \<Rightarrow> string \<Rightarrow> usage_row \<Rightarrow> bool" where
  "is_usage_of userId featureType g = (g_user_id g = userId \<and> feature_type g = featureType)"

text \<open>\<open>UPDATE user_usage SET usage_count = usage_count + 1, updated_at = CURRENT_TIMESTAMP\<close>\<close>

definition bump_usage :: "string \<Rightarrow> string \<Rightarrow> int \<Rightarrow> db \<Rightarrow> db option" where
  "bump_usage userId featureType now d =
     Some (d\<lparr>user_usage :=
       map (\<lambda>g. if is_usage_of userId featureType g
                 then g\<lparr>usage_count := usage_count g + 1, g_updated_at := now\<rparr> else g)
           (user_usage d)\<rparr>)"

text \<open>
  \<open>INSERT INTO user_usage (id, user_id, feature_type, usage_count) VALUES (?, ?, ?, 1)\<close>,
  under \<open>CHECK (feature_type IN (...))\<close> and \<open>UNIQUE(user_id, feature_type)\<close>.
\<close>

definition insert_usage :: "string \<Rightarrow> string \<Rightarrow> int \<Rightarrow> db \<Rightarrow> db option" where
  "insert_usage userId featureType now d =
     (if featureType \<in> set [''assessment'', ''journal_entry'', ''habit_tracking'', ''ai_insights'']
         \<and> filter (is_usage_of userId featureType) (user_usage d) = []
      then Some (d\<lparr>user_usage := user_usage d @
             [\<lparr>g_user_id = userId, feature_type = featureType, usage_count = 1,
               last_reset_date = now, g_updated_at = now\<rparr>]\<rparr>)
      else None)"

definition incrementUsage :: "string \<Rightarrow> string \<Rightarrow> int \<Rightarrow> db \<Rightarrow> int outcome" where
  "incrementUsage userId featureType now d =
     await (db_get (\<lambda>d. find (is_usage_of userId featureType) (user_usage d)) d)
       (\<lambda>existing.
          case existing of
            Some row \<Rightarrow> (\<lambda>d1. await (db_run (bump_usage userId featureType now) d1)
                                (\<lambda>_ d2. (Inr (usage_count row + 1), d2)))
          | None \<Rightarrow> (\<lambda>d1. await (db_run (insert_usage userId featureType now) d1)
                             (\<lambda>_ d2. (Inr 1, d2))))"

definition getUserUsage :: "string \<Rightarrow> db \<Rightarrow> usage_row list outcome" where
  "getUserUsage userId = db_get (\<lambda>d. filter (\<lambda>g. g_user_id g = userId) (user_usage d))"

definition resetUserUsage :: "string \<Rightarrow> int \<Rightarrow> db \<Rightarrow> unit outcome" where
  "resetUserUsage userId now =
     db_run (\<lambda>d. Some (d\<lparr>user_usage :=
       map (\<lambda>g. if g_user_id g = userId
                 then g\<lparr>usage_count := 0, last_reset_date := now, g_updated_at := now\<rparr> else g)
           (user_usage d)\<rparr>))"

section \<open>The usage routes (routes/usage.js)\<close>

text \<open>
  Every route runs behind \<open>authenticateToken\<close>; \<open>userId\<close> is \<open>req.user.userId\<close> of the
  verified token, \<open>feature\<close> is \<open>req.params.feature\<close>, any string. \<open>now\<close> is the value of
  \<open>CURRENT_TIMESTAMP\<close> when the request writes.
\<close>

subsection \<open>Plan limits\<close>

definition PLAN_LIMITS :: "plan \<Rightarrow> (string \<times> int) list" where
  "PLAN_LIMITS p =
     (case p of
        Free \<Rightarrow> [(''assessment'', 2), (''journal_entry'', 5), (''habit_tracking'', 3),
                 (''ai_insights'', 1)]
      | Pro \<Rightarrow> [(''assessment'', 10), (''journal_entry'', 50), (''habit_tracking'', 20),
                (''ai_insights'', 10)]
      | Premium \<Rightarrow> [(''assessment'', -1), (''journal_entry'', -1), (''habit_tracking'', -1),
                    (''ai_insights'', -1)])"

text \<open>
  \<open>limits[feature]\<close> reads a property of an object literal: an own key gives its number, a
  name that \<open>Object.prototype\<close> defines gives the inherited member (a function, or the
  prototype object itself for \<open>__proto__\<close>), any other name gives \<open>undefined\<close>.
\<close>

datatype js_value = Num int | Undefined | Inherited

definition Object_prototype :: "string list" where
  "Object_prototype = [''constructor'', ''__defineGetter__'', ''__defineSetter__'',
     ''hasOwnProperty'', ''__lookupGetter__'', ''__lookupSetter__'', ''isPrototypeOf'',
     ''propertyIsEnumerable'', ''toString'', ''valueOf'', ''__proto__'', ''toLocaleString'']"

definition js_get :: "(string \<times> int) list \<Rightarrow> string \<Rightarrow> js_value" where
  "js_get obj key =
     (case map_of obj key of
        Some n \<Rightarrow> Num n
      | None \<Rightarrow> if key \<in> set Object_prototype then Inherited else Undefined)"

text \<open>Truthiness, and the comparisons of a number with a value (\<open>NaN\<close> compares false).\<close>

definition truthy :: "js_value \<Rightarrow> bool" where
  "truthy v = (case v of Num n \<Rightarrow> n \<noteq> 0 | Undefined \<Rightarrow> False | Inherited \<Rightarrow> True)"

definition js_lt :: "int \<Rightarrow> js_value \<Rightarrow> bool" where
  "js_lt c v = (case v of Num n \<Rightarrow> c < n | _ \<Rightarrow> False)"

definition js_ge :: "int \<Rightarrow> js_value \<Rightarrow> bool" where
  "js_ge c v = (case v of Num n \<Rightarrow> c \<ge> n | _ \<Rightarrow> False)"

subsection \<open>Responses\<close>

text \<open>
  The replies of the routes, by status code: 400 \<open>Invalid feature type\<close>; the 200 bodies of
  \<open>/stats\<close>, \<open>/can-use\<close>, \<open>/increment\<close> and \<open>/reset\<close>; 403 \<open>Usage limit exceeded\<close>;
  500 \<open>Internal server error\<close>. The \<open>percentage\<close> of \<open>/stats\<close> is floating point and
  is not part of the model.
\<close>

record feature_stats =
  fs_feature :: string
  fs_used :: int
  fs_limit :: js_value
  fs_unlimited :: bool

datatype usage_response =
    InvalidFeatureType
  | StatsReply plan "feature_stats list" "int option"
  | CanUseReply bool int js_value bool plan
  | UsageLimitExceeded int js_value plan
  | IncrementReply int js_value bool plan
  | ResetReply
  | InternalServerError

text \<open>\<open>subscription ? subscription.plan_type : 'free'\<close>\<close>

definition planTypeOf :: "sub_row option \<Rightarrow> plan" where
  "planTypeOf subscription = (case subscription of Some s \<Rightarrow> plan_type s | None \<Rightarrow> Free)"

text \<open>\<open>userUsage ? userUsage.usage_count : 0\<close> for \<open>usage.find(u => u.feature_type === feature)\<close>\<close>

definition currentUsageOf :: "usage_row list \<Rightarrow> string \<Rightarrow> int" where
  "currentUsageOf usage feature =
     (case find (\<lambda>u. feature_type u = feature) usage of Some u \<Rightarrow> usage_count u | None \<Rightarrow> 0)"

text \<open>What a route's \<open>catch\<close> does: log and reply 500.\<close>

definition internal_error :: "string \<Rightarrow> db \<Rightarrow> usage_response \<times> db" where
  "internal_error msg d = (InternalServerError, console_error msg d)"

subsection \<open>GET /stats\<close>

definition stats :: "string \<Rightarrow> db \<Rightarrow> usage_response \<times> db" where
  "stats userId d =
     (case getUserUsage userId d of
        (Inl e, d1) \<Rightarrow> internal_error ''Get usage stats error:'' d1
      | (Inr usage, d1) \<Rightarrow>
          (case getUserSubscription userId d1 of
             (Inl e, d2) \<Rightarrow> internal_error ''Get usage stats error:'' d2
           | (Inr subscription, d2) \<Rightarrow>
               (let planType = planTypeOf subscription;
                    limits = PLAN_LIMITS planType
                in (StatsReply planType
                      (map (\<lambda>feature. \<lparr>fs_feature = feature,
                                         fs_used = currentUsageOf usage feature,
                                         fs_limit = js_get limits feature,
                                         fs_unlimited = (js_get limits feature = Num (-1))\<rparr>)
                           (map fst (PLAN_LIMITS Free)))
                      (case usage of [] \<Rightarrow> None | u # _ \<Rightarrow> Some (last_reset_date u)),
                    d2))))"

subsection \<open>GET /can-use/:feature\<close>

definition can_use :: "string \<Rightarrow> string \<Rightarrow> db \<Rightarrow> usage_response \<times> db" where
  "can_use userId feature d =
     (if \<not> truthy (js_get (PLAN_LIMITS Free) feature) then (InvalidFeatureType, d)
      else
       (case getUserUsage userId d of
          (Inl e, d1) \<Rightarrow> internal_error ''Check feature usage error:'' d1
        | (Inr usage, d1) \<Rightarrow>
            (case getUserSubscription userId d1 of
               (Inl e, d2) \<Rightarrow> internal_error ''Check feature usage error:'' d2
             | (Inr subscription, d2) \<Rightarrow>
                 (let planType = planTypeOf subscription;
                      limits = PLAN_LIMITS planType;
                      currentUsage = currentUsageOf usage feature;
                      limit = js_get limits feature;
                      canUse = (limit = Num (-1) \<or> js_lt currentUsage limit)
                  in (CanUseReply canUse currentUsage limit (limit = Num (-1)) planType, d2)))))"

subsection \<open>POST /increment/:feature\<close>

definition increment :: "string \<Rightarrow> string \<Rightarrow> int \<Rightarrow> db \<Rightarrow> usage_response \<times> db" where
  "increment userId feature now d =
     (if \<not> truthy (js_get (PLAN_LIMITS Free) feature) then (InvalidFeatureType, d)
      else
       (case getUserUsage userId d of
          (Inl e, d1) \<Rightarrow> internal_error ''Increment usage error:'' d1
        | (Inr usage, d1) \<Rightarrow>
            (case getUserSubscription userId d1 of
               (Inl e, d2) \<Rightarrow> internal_error ''Increment usage error:'' d2
             | (Inr subscription, d2) \<Rightarrow>
                 (let planType = planTypeOf subscription;
                      limits = PLAN_LIMITS planType;
                      currentUsage = currentUsageOf usage feature;
                      limit = js_get limits feature
                  in if limit \<noteq> Num (-1) \<and> js_ge currentUsage limit
                     then (UsageLimitExceeded currentUsage limit planType, d2)
                     else
                      (case incrementUsage userId feature now d2 of
                         (Inl e, d3) \<Rightarrow> internal_error ''Increment usage error:'' d3
                       | (Inr newUsage, d3) \<Rightarrow>
                           (IncrementReply newUsage limit (limit = Num (-1)) planType, d3))))))"

subsection \<open>POST /reset\<close>

definition reset :: "string \<Rightarrow> int \<Rightarrow> db \<Rightarrow> usage_response \<times> db" where
  "reset userId now d =
     (case resetUserUsage userId now d of
        (Inl e, d1) \<Rightarrow> internal_error ''Reset usage error:'' d1
      | (Inr _, d1) \<Rightarrow> (ResetReply, d1))"

subsection \<open>Requests in flight\<close>

text \<open>
  The handler of \<open>/increment\<close> is an async function: it runs until its next \<open>await\<close>, and
  other requests run while the awaited store call is pending. A request in flight is the
  point it has reached, with the local variables it still needs; \<open>increment_step\<close> runs
  it from one store call to the next, and \<open>interleave\<close> runs several requests in the order
  a schedule gives.
\<close>

datatype task =
    Begin
  | AwaitSubscription "usage_row list"
  | AwaitExisting js_value plan
  | AwaitWrite "usage_row option" js_value plan
  | Responded usage_response

definition respond :: "usage_response \<times> db \<Rightarrow> task \<times> db" where
  "respond r = (Responded (fst r), snd r)"

definition increment_step :: "string \<Rightarrow> string \<Rightarrow> int \<Rightarrow> task \<Rightarrow> db \<Rightarrow> task \<times> db" where
  "increment_step userId feature now t d =
     (case t of
        Begin \<Rightarrow>
          (if \<not> truthy (js_get (PLAN_LIMITS Free) feature) then (Responded InvalidFeatureType, d)
           else (case getUserUsage userId d of
                   (Inl e, d1) \<Rightarrow> respond (internal_error ''Increment usage error:'' d1)
                 | (Inr usage, d1) \<Rightarrow> (AwaitSubscription usage, d1)))
      | AwaitSubscription usage \<Rightarrow>
          (case getUserSubscription userId d of
             (Inl e, d2) \<Rightarrow> respond (internal_error ''Increment usage error:'' d2)
           | (Inr subscription, d2) \<Rightarrow>
               (let planType = planTypeOf subscription;
                    limits = PLAN_LIMITS planType;
                    currentUsage = currentUsageOf usage feature;
                    limit = js_get limits feature
                in if limit \<noteq> Num (-1) \<and> js_ge currentUsage limit
                   then (Responded (UsageLimitExceeded currentUsage limit planType), d2)
                   else (AwaitExisting limit planType, d2)))
      | AwaitExisting limit planType \<Rightarrow>
          (case db_get (\<lambda>d. find (is_usage_of userId feature) (user_usage d)) d of
             (Inl e, d3) \<Rightarrow> respond (internal_error ''Increment usage error:'' d3)
           | (Inr existing, d3) \<Rightarrow> (AwaitWrite existing limit planType, d3))
      | AwaitWrite existing limit planType \<Rightarrow>
          (case existing of
             Some row \<Rightarrow>
               (case db_run (bump_usage userId feature now) d of
                  (Inl e, d4) \<Rightarrow> respond (internal_error ''Increment usage error:'' d4)
                | (Inr _, d4) \<Rightarrow>
                    (Responded (IncrementReply (usage_count row + 1) limit
                                  (limit = Num (-1)) planType), d4))
           | None \<Rightarrow>
               (case db_run (insert_usage userId feature now) d of
                  (Inl e, d4) \<Rightarrow> respond (internal_error ''Increment usage error:'' d4)
                | (Inr _, d4) \<Rightarrow>
                    (Responded (IncrementReply 1 limit (limit = Num (-1)) planType), d4)))
      | Responded r \<Rightarrow> (Responded r, d))"

record request =
  req_user :: string
  req_feature :: string
  req_time :: int

fun interleave :: "request list \<Rightarrow> nat list \<Rightarrow> task list \<times> db \<Rightarrow> task list \<times> db" where
  "interleave reqs [] cfg = cfg"
| "interleave reqs (i # schedule) (tasks, d) =
     (if i < length tasks \<and> i < length reqs
      then (case increment_step (req_user (reqs ! i)) (req_feature (reqs ! i))
                   (req_time (reqs ! i)) (tasks ! i) d of
              (t, d') \<Rightarrow> interleave reqs schedule (tasks[i := t], d'))
      else interleave reqs schedule (tasks, d))"

text \<open>Calls one after the other, each at its own time.\<close>

fun increments :: "string \<Rightarrow> string \<Rightarrow> int list \<Rightarrow> db \<Rightarrow> usage_response list \<times> db" where
  "increments userId feature [] d = ([], d)"
| "increments userId feature (now # later) d =
     (case increment userId feature now d of
        (r, d') \<Rightarrow> (case increments userId feature later d' of (rs, d'') \<Rightarrow> (r # rs, d'')))"

section \<open>The billing webhook (server.js)\<close>

subsection \<open>Events\<close>

text \<open>
  The fields of \<open>event.data.object\<close> that the handlers read: \<open>customer_details?.email\<close>,
  \<open>customer\<close> and \<open>subscription\<close> of a checkout session, \<open>id\<close>, \<open>status\<close> and the period
  of a subscription, \<open>subscription\<close> of an invoice. \<open>unit_amount\<close> is
  \<open>subscription.items?.data?.[0]?.price?.unit_amount\<close>, absent when any link of the chain is.
  The period bounds of a subscription are seconds since the epoch; \<open>None\<close> is a bound that
  is absent from the object.
\<close>

record checkout_session =
  session_email :: "string option"
  session_customer :: "string option"
  session_subscription :: "string option"

record stripe_subscription =
  sub_id :: string
  sub_status :: string
  unit_amount :: "int option"
  sub_period_start :: "int option"
  sub_period_end :: "int option"

record invoice =
  invoice_subscription :: "string option"

datatype event =
    CheckoutSessionCompleted checkout_session
  | CustomerSubscriptionCreated stripe_subscription
  | CustomerSubscriptionUpdated stripe_subscription
  | CustomerSubscriptionDeleted stripe_subscription
  | InvoicePaymentSucceeded invoice
  | InvoicePaymentFailed invoice
  | OtherEvent string

subsection \<open>Handlers\<close>

text \<open>
  Each handler passes one object literal to the store; \<open>new Date().toISOString()\<close> and
  \<open>CURRENT_TIMESTAMP\<close> are the time \<open>now\<close> of the delivery. Only \<open>console.error\<close> is
  recorded, by the text that precedes the error or the address.
\<close>

definition checkout_data :: "int \<Rightarrow> checkout_session \<Rightarrow> subscription_data" where
  "checkout_data now session =
     no_data\<lparr>set_stripe_customer_id := Some (session_customer session),
             set_stripe_subscription_id := Some (session_subscription session),
             set_status := Some ''active'',
             set_updated_at := Some now\<rparr>"

definition handleCheckoutCompleted :: "int \<Rightarrow> checkout_session \<Rightarrow> db \<Rightarrow> unit outcome" where
  "handleCheckoutCompleted now session d =
     (case session_email session of
        None \<Rightarrow> (Inr (), console_error ''No customer email found in checkout session'' d)
      | Some customerEmail \<Rightarrow>
          if customerEmail = []
          then (Inr (), console_error ''No customer email found in checkout session'' d)
          else
            try_catch
              (await (getUserByEmail customerEmail d)
                 (\<lambda>user.
                    case user of
                      None \<Rightarrow> (\<lambda>d1. (Inr (), console_error ''User not found:'' d1))
                    | Some u \<Rightarrow>
                        updateUserSubscription (u_id u) (checkout_data now session) now))
              (\<lambda>e d'. (Inr (), console_error ''Error handling checkout completion:'' d')))"

text \<open>\<open>planType\<close> of \<open>handleSubscriptionChange\<close>; an amount of 0 is falsy.\<close>

definition planTypeOfAmount :: "int option \<Rightarrow> plan" where
  "planTypeOfAmount a =
     (case a of
        None \<Rightarrow> Free
      | Some amount \<Rightarrow>
          if amount = 0 then Free
          else if amount = 999 then Pro
          else if amount = 2999 then Premium
          else Free)"

text \<open>
  \<open>new Date(seconds * 1000).toISOString()\<close>: the date is invalid when the bound is absent
  (\<open>undefined * 1000\<close> is \<open>NaN\<close>) or lies more than 8.64e15 milliseconds from the epoch,
  and \<open>toISOString\<close> then throws a \<open>RangeError\<close>.
\<close>

definition valid_date :: "int option \<Rightarrow> bool" where
  "valid_date seconds =
     (case seconds of None \<Rightarrow> False | Some s \<Rightarrow> \<bar>s * 1000\<bar> \<le> 8640000000000000)"

definition toISOString :: "int option \<Rightarrow> error + int" where
  "toISOString seconds =
     (case seconds of
        None \<Rightarrow> Inl RangeError
      | Some s \<Rightarrow> if valid_date seconds then Inr (s * 1000) else Inl RangeError)"

text \<open>
  The object literal of \<open>handleSubscriptionChange\<close> is built inside the handler's \<open>try\<close>,
  its properties in order; a bound that throws leaves no object and no store call.
\<close>

definition change_data :: "int \<Rightarrow> stripe_subscription \<Rightarrow> error + subscription_data" where
  "change_data now sub =
     (case toISOString (sub_period_start sub) of
        Inl e \<Rightarrow> Inl e
      | Inr period_start \<Rightarrow>
          (case toISOString (sub_period_end sub) of
             Inl e \<Rightarrow> Inl e
           | Inr period_end \<Rightarrow>
               Inr (no_data\<lparr>set_status := Some (sub_status sub),
                            set_plan_type := Some (planTypeOfAmount (unit_amount sub)),
                            set_current_period_start := Some period_start,
                            set_current_period_end := Some period_end,
                            set_updated_at := Some now\<rparr>)))"

definition handleSubscriptionChange :: "int \<Rightarrow> stripe_subscription \<Rightarrow> db \<Rightarrow> unit outcome" where
  "handleSubscriptionChange now sub d =
     try_catch
       (case change_data now sub of
          Inl e \<Rightarrow> (Inl e, d)
        | Inr sd \<Rightarrow> updateSubscriptionByStripeId (Some (sub_id sub)) sd d)
       (\<lambda>e d'. (Inr (), console_error ''Error updating subscription:'' d'))"

definition deleted_data :: "int \<Rightarrow> subscription_data" where
  "deleted_data now =
     no_data\<lparr>set_status := Some ''canceled'', set_plan_type := Some Free,
             set_updated_at := Some now\<rparr>"

definition handleSubscriptionDeleted :: "int \<Rightarrow> stripe_subscription \<Rightarrow> db \<Rightarrow> unit outcome" where
  "handleSubscriptionDeleted now sub d =
     try_catch
       (updateSubscriptionByStripeId (Some (sub_id sub)) (deleted_data now) d)
       (\<lambda>e d'. (Inr (), console_error ''Error canceling subscription:'' d'))"

definition succeeded_data :: "int \<Rightarrow> subscription_data" where
  "succeeded_data now =
     no_data\<lparr>set_last_payment_date := Some now, set_payment_status := Some PayActive,
             set_updated_at := Some now\<rparr>"

definition handlePaymentSucceeded :: "int \<Rightarrow> invoice \<Rightarrow> db \<Rightarrow> unit outcome" where
  "handlePaymentSucceeded now invoice d =
     try_catch
       (await (updateSubscriptionByStripeId (invoice_subscription invoice)
                 (succeeded_data now) d)
          (\<lambda>_ d1.
             await (getSubscriptionByStripeId (invoice_subscription invoice) d1)
               (\<lambda>subscription.
                  case subscription of
                    Some s \<Rightarrow> resetUserUsage (s_user_id s) now
                  | None \<Rightarrow> (\<lambda>d2. (Inr (), d2)))))
       (\<lambda>e d'. (Inr (), console_error ''Error updating payment status:'' d'))"

definition failed_data :: "int \<Rightarrow> subscription_data" where
  "failed_data now =
     no_data\<lparr>set_payment_status := Some PayFailed, set_updated_at := Some now\<rparr>"

definition handlePaymentFailed :: "int \<Rightarrow> invoice \<Rightarrow> db \<Rightarrow> unit outcome" where
  "handlePaymentFailed now invoice d =
     try_catch
       (updateSubscriptionByStripeId (invoice_subscription invoice) (failed_data now) d)
       (\<lambda>e d'. (Inr (), console_error ''Error updating payment failure:'' d'))"

subsection \<open>POST /api/webhooks/stripe\<close>

text \<open>
  The request is \<open>None\<close> when the signature does not verify (400). Otherwise the event is
  dispatched on its type inside the route's own \<open>try\<close>: 200 \<open>received\<close> when the handler
  returns, 500 \<open>Webhook processing failed\<close> when it throws.
\<close>

datatype webhook_response = WebhookError | Received | ProcessingFailed

definition handle_event :: "int \<Rightarrow> event \<Rightarrow> db \<Rightarrow> unit outcome" where
  "handle_event now ev d =
     (case ev of
        CheckoutSessionCompleted session \<Rightarrow> handleCheckoutCompleted now session d
      | CustomerSubscriptionCreated sub \<Rightarrow> handleSubscriptionChange now sub d
      | CustomerSubscriptionUpdated sub \<Rightarrow> handleSubscriptionChange now sub d
      | CustomerSubscriptionDeleted sub \<Rightarrow> handleSubscriptionDeleted now sub d
      | InvoicePaymentSucceeded invoice \<Rightarrow> handlePaymentSucceeded now invoice d
      | InvoicePaymentFailed invoice \<Rightarrow> handlePaymentFailed now invoice d
      | OtherEvent _ \<Rightarrow> (Inr (), d))"

definition stripe_webhook :: "int \<Rightarrow> event option \<Rightarrow> db \<Rightarrow> webhook_response \<times> db" where
  "stripe_webhook now req d =
     (case req of
        None \<Rightarrow> (WebhookError, console_error ''Webhook signature verification failed:'' d)
      | Some ev \<Rightarrow>
          (case handle_event now ev d of
             (Inl e, d') \<Rightarrow> (ProcessingFailed, console_error ''Error processing webhook:'' d')
           | (Inr _, d') \<Rightarrow> (Received, d')))"

text \<open>A sequence of deliveries, each at its own time.\<close>

fun deliveries :: "(int \<times> event) list \<Rightarrow> db \<Rightarrow> db" where
  "deliveries [] d = d"
| "deliveries ((now, ev) # rest) d = deliveries rest (snd (stripe_webhook now (Some ev) d))"

section \<open>Properties\<close>

subsection \<open>Notions used in the statements\<close>

text \<open>
  A store operation failed. What the handler does with it: the operation, issued at \<open>d\<close>
  with outcome \<open>r\<close>, changed no table, left \<open>Database error:\<close> on the console and took
  one entry of the fault script (two when it is \<open>updateUserSubscription\<close>, which reads
  before it writes), and the delivery ended in the very state the operation left, with the
  message of the handler's \<open>catch\<close> added. So the error was caught and logged, and no
  store call, in particular no second attempt, came after it.
\<close>

definition failed :: "'a outcome \<Rightarrow> bool" where
  "failed r = (case fst r of Inl _ \<Rightarrow> True | Inr _ \<Rightarrow> False)"

definition quiet :: "db \<Rightarrow> db \<Rightarrow> bool" where
  "quiet d d' =
     (users d' = users d \<and> user_subscriptions d' = user_subscriptions d \<and>
      user_usage d' = user_usage d \<and> console d' = console d @ [''Database error:''] \<and>
      (faults d' = tl (faults d) \<or> faults d' = tl (tl (faults d))))"

definition caught_and_logged :: "string \<Rightarrow> db \<Rightarrow> 'a outcome \<Rightarrow> db \<Rightarrow> bool" where
  "caught_and_logged msg d r d' = (quiet d (snd r) \<and> d' = console_error msg (snd r))"

text \<open>
  The same for every store operation of every handler, in the order the handler issues
  them: \<open>d'\<close> is the state after the delivery of \<open>ev\<close> to \<open>d\<close>. An operation is issued
  only when the ones before it succeeded, in the state they left.
\<close>

definition change_failure_caught :: "int \<Rightarrow> stripe_subscription \<Rightarrow> db \<Rightarrow> db \<Rightarrow> bool" where
  "change_failure_caught now sub d d' =
     (case change_data now sub of
        Inl _ \<Rightarrow> True
      | Inr sd \<Rightarrow>
          failed (updateSubscriptionByStripeId (Some (sub_id sub)) sd d) \<longrightarrow>
          caught_and_logged ''Error updating subscription:'' d
            (updateSubscriptionByStripeId (Some (sub_id sub)) sd d) d')"

definition checkout_failure_caught :: "int \<Rightarrow> checkout_session \<Rightarrow> db \<Rightarrow> db \<Rightarrow> bool" where
  "checkout_failure_caught now session d d' =
     (case session_email session of
        None \<Rightarrow> True
      | Some customerEmail \<Rightarrow>
          customerEmail \<noteq> [] \<longrightarrow>
          (failed (getUserByEmail customerEmail d) \<longrightarrow>
           caught_and_logged ''Error handling checkout completion:'' d
             (getUserByEmail customerEmail d) d') \<and>
          (\<forall>u. fst (getUserByEmail customerEmail d) = Inr (Some u) \<longrightarrow>
             failed (updateUserSubscription (u_id u) (checkout_data now session) now
                       (snd (getUserByEmail customerEmail d))) \<longrightarrow>
             caught_and_logged ''Error handling checkout completion:''
               (snd (getUserByEmail customerEmail d))
               (updateUserSubscription (u_id u) (checkout_data now session) now
                  (snd (getUserByEmail customerEmail d))) d'))"

definition payment_failure_caught :: "int \<Rightarrow> invoice \<Rightarrow> db \<Rightarrow> db \<Rightarrow> bool" where
  "payment_failure_caught now invoice d d' =
     (let sid = invoice_subscription invoice;
          r1 = updateSubscriptionByStripeId sid (succeeded_data now) d;
          r2 = getSubscriptionByStripeId sid (snd r1)
      in (failed r1 \<longrightarrow> caught_and_logged ''Error updating payment status:'' d r1 d') \<and>
         (\<not> failed r1 \<and> failed r2 \<longrightarrow>
            caught_and_logged ''Error updating payment status:'' (snd r1) r2 d') \<and>
         (\<forall>s. \<not> failed r1 \<and> fst r2 = Inr (Some s) \<and>
              failed (resetUserUsage (s_user_id s) now (snd r2)) \<longrightarrow>
              caught_and_logged ''Error updating payment status:'' (snd r2)
                (resetUserUsage (s_user_id s) now (snd r2)) d'))"

definition failures_caught :: "int \<Rightarrow> event \<Rightarrow> db \<Rightarrow> db \<Rightarrow> bool" where
  "failures_caught now ev d d' =
     (case ev of
        CheckoutSessionCompleted session \<Rightarrow> checkout_failure_caught now session d d'
      | CustomerSubscriptionCreated sub \<Rightarrow> change_failure_caught now sub d d'
      | CustomerSubscriptionUpdated sub \<Rightarrow> change_failure_caught now sub d d'
      | CustomerSubscriptionDeleted sub \<Rightarrow>
          failed (updateSubscriptionByStripeId (Some (sub_id sub)) (deleted_data now) d) \<longrightarrow>
          caught_and_logged ''Error canceling subscription:'' d
            (updateSubscriptionByStripeId (Some (sub_id sub)) (deleted_data now) d) d'
      | InvoicePaymentSucceeded invoice \<Rightarrow> payment_failure_caught now invoice d d'
      | InvoicePaymentFailed invoice \<Rightarrow>
          failed (updateSubscriptionByStripeId (invoice_subscription invoice)
                    (failed_data now) d) \<longrightarrow>
          caught_and_logged ''Error updating payment failure:'' d
            (updateSubscriptionByStripeId (invoice_subscription invoice) (failed_data now) d) d'
      | OtherEvent _ \<Rightarrow> True)"

text \<open>The table after \<open>UPDATE user_subscriptions SET ... WHERE stripe_subscription_id = ?\<close>.\<close>

definition updated_rows ::
  "string option \<Rightarrow> subscription_data \<Rightarrow> sub_row list \<Rightarrow> sub_row list" where
  "updated_rows sid sd rows = map (\<lambda>r. if has_stripe_id sid r then apply_data sd r else r) rows"

text \<open>
  The invariant of C4 on a row and on the table, and the events that cannot break it: a
  \<open>customer.subscription.created\<close> or \<open>updated\<close> event breaks it only with a status of
  free or canceled together with an amount of 999 or 2999.
\<close>

definition tier_ok :: "sub_row \<Rightarrow> bool" where
  "tier_ok r = (status r \<in> set [''free'', ''canceled''] \<longrightarrow> plan_type r = Free)"

definition tier_invariant :: "db \<Rightarrow> bool" where
  "tier_invariant d = list_all tier_ok (user_subscriptions d)"

definition keeps_tier :: "event \<Rightarrow> bool" where
  "keeps_tier ev =
     (case ev of
        CustomerSubscriptionCreated sub \<Rightarrow>
          sub_status sub \<in> set [''free'', ''canceled''] \<longrightarrow>
          unit_amount sub \<notin> {Some 999, Some 2999}
      | CustomerSubscriptionUpdated sub \<Rightarrow>
          sub_status sub \<in> set [''free'', ''canceled''] \<longrightarrow>
          unit_amount sub \<notin> {Some 999, Some 2999}
      | _ \<Rightarrow> True)"

text \<open>The plan a reply reports, if it reports one.\<close>

definition reply_plan :: "usage_response \<Rightarrow> plan option" where
  "reply_plan r =
     (case r of
        StatsReply planType _ _ \<Rightarrow> Some planType
      | CanUseReply _ _ _ _ planType \<Rightarrow> Some planType
      | UsageLimitExceeded _ _ planType \<Rightarrow> Some planType
      | IncrementReply _ _ _ planType \<Rightarrow> Some planType
      | _ \<Rightarrow> None)"

text \<open>
  What the routes read for a user: the current usage of a feature and the plan. The usage
  table after a successful call of \<open>incrementUsage\<close>.
\<close>

definition used :: "string \<Rightarrow> string \<Rightarrow> db \<Rightarrow> int" where
  "used userId feature d =
     currentUsageOf (filter (\<lambda>g. g_user_id g = userId) (user_usage d)) feature"

definition resolved_plan :: "string \<Rightarrow> db \<Rightarrow> plan" where
  "resolved_plan userId d =
     planTypeOf (find (\<lambda>s. s_user_id s = userId) (user_subscriptions d))"

definition incremented_usage :: "string \<Rightarrow> string \<Rightarrow> int \<Rightarrow> usage_row list \<Rightarrow> usage_row list" where
  "incremented_usage userId feature now usage =
     (case find (is_usage_of userId feature) usage of
        Some _ \<Rightarrow> map (\<lambda>g. if is_usage_of userId feature g
                 then g\<lparr>usage_count := usage_count g + 1, g_updated_at := now\<rparr> else g) usage
      | None \<Rightarrow> usage @ [\<lparr>g_user_id = userId, feature_type = feature, usage_count = 1,
               last_reset_date = now, g_updated_at = now\<rparr>])"

subsection \<open>Example stores and events\<close>

definition alice :: user_row where
  "alice = \<lparr>u_id = ''u1'', u_email = ''alice@example.com''\<rparr>"

definition alice_sub :: sub_row where
  "alice_sub = \<lparr>s_user_id = ''u1'', stripe_customer_id = Some ''cus_1'',
     stripe_subscription_id = Some ''sub_1'', status = ''active'', plan_type = Pro,
     current_period_start = Some 1000, current_period_end = Some 2000,
     last_payment_date = None, payment_status = PayActive, s_updated_at = 1\<rparr>"

definition store_new :: db where
  "store_new = \<lparr>users = [alice], user_subscriptions = [], user_usage = [],
     faults = [], console = []\<rparr>"

definition store_pro :: db where
  "store_pro = store_new\<lparr>user_subscriptions := [alice_sub]\<rparr>"

definition deleted_sub_1 :: event where
  "deleted_sub_1 = CustomerSubscriptionDeleted \<lparr>sub_id = ''sub_1'', sub_status = ''canceled'',
     unit_amount = Some 999, sub_period_start = Some 1, sub_period_end = Some 2\<rparr>"

definition checkout_alice :: checkout_session where
  "checkout_alice = \<lparr>session_email = Some ''alice@example.com'',
     session_customer = Some ''cus_1'', session_subscription = Some ''sub_1''\<rparr>"

definition upgrade_sub_1 :: stripe_subscription where
  "upgrade_sub_1 = \<lparr>sub_id = ''sub_1'', sub_status = ''active'', unit_amount = Some 2999,
     sub_period_start = Some 3, sub_period_end = Some 4\<rparr>"

text \<open>The same upgrade while the first payment is open, and with a period end out of range.\<close>

definition incomplete_upgrade :: stripe_subscription where
  "incomplete_upgrade = upgrade_sub_1\<lparr>sub_status := ''incomplete''\<rparr>"


definition cancel_on_pro :: stripe_subscription where
  "cancel_on_pro = \<lparr>sub_id = ''sub_1'', sub_status = ''canceled'', unit_amount = Some 999,
     sub_period_start = Some 3, sub_period_end = Some 4\<rparr>"

text \<open>Alice after a checkout, still on the free plan, with both assessments used.\<close>

definition alice_checked_out :: sub_row where
  "alice_checked_out = alice_sub\<lparr>plan_type := Free\<rparr>"

definition store_at_limit :: db where
  "store_at_limit = store_new\<lparr>user_subscriptions := [alice_checked_out],
     user_usage := [\<lparr>g_user_id = ''u1'', feature_type = ''assessment'', usage_count = 2,
                     last_reset_date = 0, g_updated_at = 2\<rparr>]\<rparr>"

definition canceled_pro :: db where
  "canceled_pro = store_new\<lparr>user_subscriptions := [alice_sub\<lparr>status := ''canceled''\<rparr>]\<rparr>"

text \<open>Alice on the free plan with one of the two assessments used, and two requests.\<close>

definition store_one_left :: db where
  "store_one_left = store_new\<lparr>user_usage :=
     [\<lparr>g_user_id = ''u1'', feature_type = ''assessment'', usage_count = 1,
       last_reset_date = 0, g_updated_at = 1\<rparr>]\<rparr>"

definition first_request :: request where
  "first_request = \<lparr>req_user = ''u1'', req_feature = ''assessment'', req_time = 5\<rparr>"

definition second_request :: request where
  "second_request = \<lparr>req_user = ''u1'', req_feature = ''assessment'', req_time = 6\<rparr>"

text \<open>What the handler hands to the store for the upgrade with the open payment, at time 7.\<close>

definition incomplete_data :: subscription_data where
  "incomplete_data = no_data\<lparr>set_status := Some ''incomplete'', set_plan_type := Some Premium,
     set_current_period_start := Some 3000, set_current_period_end := Some 4000,
     set_updated_at := Some 7\<rparr>"

subsection \<open>Store calls\<close>

lemma no_fault_simps:
  "faults d = [] \<Longrightarrow> next_fault d = False"
  "faults d = [] \<Longrightarrow> consume_fault d = d"
  by (simp_all add: next_fault_def consume_fault_def)

lemma db_get_ok: "\<not> next_fault d \<Longrightarrow> db_get q d = (Inr (q d), consume_fault d)"
  by (simp add: db_get_def)

lemma db_get_fail:
  "next_fault d \<Longrightarrow>
   db_get q d = (Inl StorageFailure, console_error ''Database error:'' (consume_fault d))"
  by (simp add: db_get_def)

lemma db_run_fail:
  "next_fault d \<Longrightarrow>
   db_run stmt d = (Inl StorageFailure, console_error ''Database error:'' (consume_fault d))"
  by (simp add: db_run_def)

subsection \<open>The webhook and failing store calls\<close>

lemma try_catch_returns:
  "fst (try_catch m (\<lambda>e d'. (Inr (), g d'))) = Inr ()"
  by (cases m) (auto simp: try_catch_def split: sum.splits)

lemma handlers_return:
  "fst (handleCheckoutCompleted now session d) = Inr ()"
  "fst (handleSubscriptionChange now sub d) = Inr ()"
  "fst (handleSubscriptionDeleted now sub d) = Inr ()"
  "fst (handlePaymentSucceeded now invoice d) = Inr ()"
  "fst (handlePaymentFailed now invoice d) = Inr ()"
  by (simp_all add: handleCheckoutCompleted_def handleSubscriptionChange_def
      handleSubscriptionDeleted_def handlePaymentSucceeded_def handlePaymentFailed_def
      try_catch_returns split: option.splits)

lemma handle_event_returns: "fst (handle_event now ev d) = Inr ()"
  by (cases ev) (simp_all add: handle_event_def handlers_return)

lemma webhook_received: "fst (stripe_webhook now (Some ev) d) = Received"
  using handle_event_returns[of now ev d]
  by (cases "handle_event now ev d") (auto simp: stripe_webhook_def split: sum.splits)

lemma webhook_state: "snd (stripe_webhook now (Some ev) d) = snd (handle_event now ev d)"
  using handle_event_returns[of now ev d]
  by (cases "handle_event now ev d") (auto simp: stripe_webhook_def split: sum.splits)

text \<open>A failed store operation changes no table and logs once.\<close>

lemma db_get_failed: "failed (db_get q d) \<Longrightarrow> quiet d (snd (db_get q d))"
  by (auto simp: failed_def db_get_def quiet_def console_error_def consume_fault_def
      split: if_splits)

lemma db_run_failed: "failed (db_run stmt d) \<Longrightarrow> quiet d (snd (db_run stmt d))"
  by (auto simp: failed_def db_run_def quiet_def console_error_def consume_fault_def
      split: if_splits option.splits)

lemma updateUserSubscription_failed:
  "failed (updateUserSubscription u sd now d) \<Longrightarrow>
   quiet d (snd (updateUserSubscription u sd now d))"
  by (auto simp: failed_def updateUserSubscription_def await_def db_get_def db_run_def
      quiet_def console_error_def consume_fault_def
      split: if_splits option.splits)

lemma try_catch_failed:
  "failed m \<Longrightarrow>
   snd (try_catch m (\<lambda>e d'. (Inr (), console_error msg d'))) = console_error msg (snd m)"
  by (cases m) (auto simp: failed_def try_catch_def split: sum.splits)

lemma await_failed: "failed m \<Longrightarrow> await m k = (Inl (projl (fst m)), snd m)"
  by (cases m) (auto simp: failed_def await_def split: sum.splits)

lemma await_failed': "failed m \<Longrightarrow> failed (await m k) \<and> snd (await m k) = snd m"
  by (cases m) (auto simp: failed_def await_def split: sum.splits)

lemma await_ok: "fst m = Inr x \<Longrightarrow> await m k = k x (snd m)"
  by (cases m) (auto simp: await_def)

lemma not_failed: "\<not> failed m \<Longrightarrow> \<exists>x. fst m = Inr x"
  by (cases m) (auto simp: failed_def split: sum.splits)

lemma deleted_failure_caught:
  assumes "failed (updateSubscriptionByStripeId (Some (sub_id sub)) (deleted_data now) d)"
  shows "caught_and_logged ''Error canceling subscription:'' d
            (updateSubscriptionByStripeId (Some (sub_id sub)) (deleted_data now) d)
            (snd (handleSubscriptionDeleted now sub d))"
  using assms db_run_failed[of "update_subs (has_stripe_id (Some (sub_id sub))) (deleted_data now)" d]
  by (simp add: caught_and_logged_def handleSubscriptionDeleted_def try_catch_failed
      updateSubscriptionByStripeId_def)

lemma payment_failed_failure_caught:
  assumes "failed (updateSubscriptionByStripeId (invoice_subscription invoice) (failed_data now) d)"
  shows "caught_and_logged ''Error updating payment failure:'' d
            (updateSubscriptionByStripeId (invoice_subscription invoice) (failed_data now) d)
            (snd (handlePaymentFailed now invoice d))"
  using assms db_run_failed[of "update_subs (has_stripe_id (invoice_subscription invoice)) (failed_data now)" d]
  by (simp add: caught_and_logged_def handlePaymentFailed_def try_catch_failed
      updateSubscriptionByStripeId_def)

lemma change_failure_caught_holds:
  "change_failure_caught now sub d (snd (handleSubscriptionChange now sub d))"
proof (cases "change_data now sub")
  case (Inl e)
  then show ?thesis by (simp add: change_failure_caught_def)
next
  case (Inr sd)
  show ?thesis
    using db_run_failed[of "update_subs (has_stripe_id (Some (sub_id sub))) sd" d]
    by (simp add: change_failure_caught_def Inr caught_and_logged_def
        handleSubscriptionChange_def try_catch_failed updateSubscriptionByStripeId_def)
qed

lemma payment_failure_caught_holds:
  "payment_failure_caught now invoice d (snd (handlePaymentSucceeded now invoice d))"
proof -
  let ?sid = "invoice_subscription invoice"
  let ?msg = "''Error updating payment status:''"
  let ?r1 = "updateSubscriptionByStripeId ?sid (succeeded_data now) d"
  let ?r2 = "getSubscriptionByStripeId ?sid (snd ?r1)"
  let ?d' = "snd (handlePaymentSucceeded now invoice d)"
  have a: "caught_and_logged ?msg d ?r1 ?d'" if "failed ?r1"
    using that db_run_failed[of "update_subs (has_stripe_id ?sid) (succeeded_data now)" d]
    by (simp add: caught_and_logged_def handlePaymentSucceeded_def try_catch_failed
        await_failed' updateSubscriptionByStripeId_def)
  have b: "caught_and_logged ?msg (snd ?r1) ?r2 ?d'" if nf: "\<not> failed ?r1" and f2: "failed ?r2"
  proof -
    obtain x where x: "fst ?r1 = Inr x" using not_failed[OF nf] by blast
    show ?thesis
      using f2 db_get_failed[of "\<lambda>d. find (has_stripe_id ?sid) (user_subscriptions d)" "snd ?r1"]
      by (simp add: caught_and_logged_def handlePaymentSucceeded_def await_ok[OF x]
          try_catch_failed await_failed' getSubscriptionByStripeId_def)
  qed
  have c: "caught_and_logged ?msg (snd ?r2) (resetUserUsage (s_user_id s) now (snd ?r2)) ?d'"
    if nf: "\<not> failed ?r1" and found: "fst ?r2 = Inr (Some s)"
      and f3: "failed (resetUserUsage (s_user_id s) now (snd ?r2))"
    for s
  proof -
    obtain x where x: "fst ?r1 = Inr x" using not_failed[OF nf] by blast
    show ?thesis
      using f3
      by (simp add: caught_and_logged_def handlePaymentSucceeded_def await_ok[OF x]
          await_ok[OF found] try_catch_failed resetUserUsage_def db_run_failed)
  qed
  show ?thesis
    unfolding payment_failure_caught_def Let_def using a b c by blast
qed

lemma checkout_failure_caught_holds:
  "checkout_failure_caught now session d (snd (handleCheckoutCompleted now session d))"
proof (cases "session_email session")
  case None
  then show ?thesis by (simp add: checkout_failure_caught_def)
next
  case (Some customerEmail)
  let ?msg = "''Error handling checkout completion:''"
  let ?r1 = "getUserByEmail customerEmail d"
  let ?d' = "snd (handleCheckoutCompleted now session d)"
  have a: "caught_and_logged ?msg d ?r1 ?d'" if "customerEmail \<noteq> []" "failed ?r1"
    using that Some db_get_failed[of "\<lambda>d. find (\<lambda>u. u_email u = customerEmail) (users d)" d]
    by (simp add: caught_and_logged_def handleCheckoutCompleted_def try_catch_failed
        await_failed' getUserByEmail_def)
  have b: "caught_and_logged ?msg (snd ?r1)
            (updateUserSubscription (u_id u) (checkout_data now session) now (snd ?r1)) ?d'"
    if "customerEmail \<noteq> []" "fst ?r1 = Inr (Some u)"
      "failed (updateUserSubscription (u_id u) (checkout_data now session) now (snd ?r1))" for u
    using that Some
    by (simp add: caught_and_logged_def handleCheckoutCompleted_def await_ok[OF that(2)]
        try_catch_failed updateUserSubscription_failed)
  show ?thesis
    unfolding checkout_failure_caught_def Some using a b by simp
qed

text \<open>
  C5 as stated fails: with the storage failing on the first call, the update of
  \<open>handleSubscriptionDeleted\<close> is rejected, and the delivery is still not answered with
  \<open>Webhook processing failed\<close>; the subscription stays as it was.
\<close>

theorem store_failure_not_propagated:
  "fst (updateSubscriptionByStripeId (Some ''sub_1'') (deleted_data 5)
          (store_pro\<lparr>faults := [True]\<rparr>)) = Inl StorageFailure \<and>
   fst (stripe_webhook 5 (Some deleted_sub_1) (store_pro\<lparr>faults := [True]\<rparr>)) \<noteq> ProcessingFailed \<and>
   user_subscriptions (snd (stripe_webhook 5 (Some deleted_sub_1) (store_pro\<lparr>faults := [True]\<rparr>)))
     = [alice_sub]"
  by (simp add: stripe_webhook_def handle_event_def deleted_sub_1_def handleSubscriptionDeleted_def
      updateSubscriptionByStripeId_def db_run_def next_fault_def try_catch_def store_pro_def
      store_new_def console_error_def consume_fault_def deleted_data_def)

text \<open>
  C5, amended: every delivery of a verified event is answered \<open>received\<close>, whatever the
  store does. If any store operation of the event's handler fails, because the storage fails
  or because the schema rejects the statement, the failed operation has changed no table and
  has logged \<open>Database error:\<close>, the handler catches the error and logs its own message,
  and the delivery ends there: no store call follows the failed one, so nothing is retried.
\<close>

theorem store_failure_is_caught:
  "fst (stripe_webhook now (Some ev) d) = Received \<and>
   failures_caught now ev d (snd (stripe_webhook now (Some ev) d))"
proof
  show "fst (stripe_webhook now (Some ev) d) = Received"
    by (rule webhook_received)
next
  show "failures_caught now ev d (snd (stripe_webhook now (Some ev) d))"
  proof (cases ev)
    case (CheckoutSessionCompleted session)
    then show ?thesis
      by (simp add: failures_caught_def webhook_state handle_event_def
          checkout_failure_caught_holds)
  next
    case (CustomerSubscriptionCreated sub)
    then show ?thesis
      by (simp add: failures_caught_def webhook_state handle_event_def
          change_failure_caught_holds)
  next
    case (CustomerSubscriptionUpdated sub)
    then show ?thesis
      by (simp add: failures_caught_def webhook_state handle_event_def
          change_failure_caught_holds)
  next
    case (CustomerSubscriptionDeleted sub)
    then show ?thesis
      by (simp add: failures_caught_def webhook_state handle_event_def deleted_failure_caught)
  next
    case (InvoicePaymentSucceeded invoice)
    then show ?thesis
      by (simp add: failures_caught_def webhook_state handle_event_def
          payment_failure_caught_holds)
  next
    case (InvoicePaymentFailed invoice)
    then show ?thesis
      by (simp add: failures_caught_def webhook_state handle_event_def
          payment_failed_failure_caught)
  next
    case (OtherEvent x)
    then show ?thesis by (simp add: failures_caught_def)
  qed
qed

text \<open>
  Two deliveries to Alice's store: a successful payment whose second store operation is hit
  by a storage failure, and an upgrade whose status the schema rejects.
\<close>

theorem store_failure_is_caught_witness:
  "\<not> failed (updateSubscriptionByStripeId (Some ''sub_1'') (succeeded_data 9)
              (store_at_limit\<lparr>faults := [False, True]\<rparr>)) \<and>
   failed (getSubscriptionByStripeId (Some ''sub_1'')
      (snd (updateSubscriptionByStripeId (Some ''sub_1'') (succeeded_data 9)
              (store_at_limit\<lparr>faults := [False, True]\<rparr>)))) \<and>
   stripe_webhook 9 (Some (InvoicePaymentSucceeded \<lparr>invoice_subscription = Some ''sub_1''\<rparr>))
       (store_at_limit\<lparr>faults := [False, True]\<rparr>)
     = (Received,
        store_at_limit\<lparr>user_subscriptions :=
            [alice_checked_out\<lparr>last_payment_date := Some 9, s_updated_at := 9\<rparr>],
          console := [''Database error:'', ''Error updating payment status:'']\<rparr>) \<and>
   change_data 7 incomplete_upgrade = Inr incomplete_data \<and>
   fst (updateSubscriptionByStripeId (Some ''sub_1'') incomplete_data store_pro)
     = Inl ConstraintFailed \<and>
   stripe_webhook 7 (Some (CustomerSubscriptionUpdated incomplete_upgrade)) store_pro
     = (Received,
        store_pro\<lparr>console := [''Database error:'', ''Error updating subscription:'']\<rparr>)"
  using store_failure_is_caught[of 9
      "InvoicePaymentSucceeded \<lparr>invoice_subscription = Some ''sub_1''\<rparr>"
      "store_at_limit\<lparr>faults := [False, True]\<rparr>"]
    store_failure_is_caught[of 7 "CustomerSubscriptionUpdated incomplete_upgrade" store_pro]
  by (simp add: failed_def store_at_limit_def store_pro_def store_new_def alice_checked_out_def
      alice_sub_def incomplete_upgrade_def upgrade_sub_1_def incomplete_data_def
      stripe_webhook_def handle_event_def handlePaymentSucceeded_def
      handleSubscriptionChange_def updateSubscriptionByStripeId_def
      getSubscriptionByStripeId_def db_get_def db_run_def update_subs_def next_fault_def
      consume_fault_def console_error_def await_def try_catch_def status_check_def
      unique_check_def succeeded_data_def change_data_def toISOString_def valid_date_def
      planTypeOfAmount_def no_data_def apply_data_def has_stripe_id_def)

subsection \<open>Lists and rows\<close>

lemma find_map_same:
  "(\<And>x. P (f x) = P x) \<Longrightarrow> find P (map f xs) = map_option f (find P xs)"
  by (induction xs) auto

lemma find_snoc:
  "find P (xs @ [y]) =
     (case find P xs of Some x \<Rightarrow> Some x | None \<Rightarrow> if P y then Some y else None)"
  by (induction xs) auto

lemma apply_data_sel:
  "s_user_id (apply_data sd r) = s_user_id r"
  "plan_type (apply_data sd r) = (case set_plan_type sd of None \<Rightarrow> plan_type r | Some v \<Rightarrow> v)"
  "status (apply_data sd r) = (case set_status sd of None \<Rightarrow> status r | Some v \<Rightarrow> v)"
  "stripe_subscription_id (apply_data sd r) =
     (case set_stripe_subscription_id sd of None \<Rightarrow> stripe_subscription_id r | Some v \<Rightarrow> v)"
  "payment_status (apply_data sd r) =
     (case set_payment_status sd of None \<Rightarrow> payment_status r | Some v \<Rightarrow> v)"
  "last_payment_date (apply_data sd r) =
     (case set_last_payment_date sd of None \<Rightarrow> last_payment_date r | Some v \<Rightarrow> Some v)"
  by (simp_all add: apply_data_def)

subsection \<open>Checkout\<close>

text \<open>What a call of \<open>updateUserSubscription\<close> can leave in the table.\<close>

lemma updateUserSubscription_rows:
  "user_subscriptions (snd (updateUserSubscription u sd now d)) = user_subscriptions d \<or>
   user_subscriptions (snd (updateUserSubscription u sd now d)) =
     map (\<lambda>r. if s_user_id r = u then apply_data sd r else r) (user_subscriptions d) \<or>
   (find (\<lambda>s. s_user_id s = u) (user_subscriptions d) = None \<and>
    user_subscriptions (snd (updateUserSubscription u sd now d)) =
      user_subscriptions d @ [apply_data sd (default_sub u now)])"
  by (auto simp: updateUserSubscription_def await_def db_get_def db_run_def update_subs_def
      insert_sub_def console_error_def consume_fault_def Let_def split: option.splits)

lemma checkout_rows:
  "user_subscriptions (snd (handleCheckoutCompleted now session d)) = user_subscriptions d \<or>
   (\<exists>u. user_subscriptions (snd (handleCheckoutCompleted now session d)) =
           map (\<lambda>r. if s_user_id r = u then apply_data (checkout_data now session) r else r)
             (user_subscriptions d) \<or>
         (find (\<lambda>s. s_user_id s = u) (user_subscriptions d) = None \<and>
          user_subscriptions (snd (handleCheckoutCompleted now session d)) =
            user_subscriptions d @ [apply_data (checkout_data now session) (default_sub u now)]))"
proof (cases "session_email session")
  case None
  then show ?thesis by (simp add: handleCheckoutCompleted_def console_error_def)
next
  case (Some customerEmail)
  note email = this
  show ?thesis
  proof (cases "customerEmail = [] \<or> next_fault d")
    case True
    then show ?thesis using email
      by (auto simp: handleCheckoutCompleted_def console_error_def getUserByEmail_def db_get_def
          await_def try_catch_def consume_fault_def)
  next
    case False
    show ?thesis
    proof (cases "find (\<lambda>u. u_email u = customerEmail) (users d)")
      case None
      then show ?thesis using email False
        by (simp add: handleCheckoutCompleted_def console_error_def getUserByEmail_def db_get_def
            await_def try_catch_def consume_fault_def)
    next
      case (Some usr)
      have eq: "user_subscriptions (snd (handleCheckoutCompleted now session d)) =
            user_subscriptions (snd (updateUserSubscription (u_id usr)
                                       (checkout_data now session) now (consume_fault d)))"
        using Some False email
        by (cases "updateUserSubscription (u_id usr) (checkout_data now session) now
                     (consume_fault d)")
           (auto simp: handleCheckoutCompleted_def console_error_def getUserByEmail_def
             db_get_def await_def try_catch_def consume_fault_def split: sum.splits)
      show ?thesis
        using updateUserSubscription_rows[of "u_id usr" "checkout_data now session" now
            "consume_fault d"]
        unfolding eq by (auto simp: consume_fault_def)
    qed
  qed
qed

lemma checkout_data_plan: "set_plan_type (checkout_data now session) = None"
  by (simp add: checkout_data_def no_data_def)

text \<open>
  C10: a checkout never writes \<open>plan_type\<close>. The rows that were in the table keep their
  plan; a row the checkout creates is on the free plan (and active); so the plan the usage
  routes resolve for any user is what it was before the checkout.
\<close>

theorem checkout_keeps_plan_type:
  "map plan_type (take (length (user_subscriptions d))
        (user_subscriptions (snd (handleCheckoutCompleted now session d))))
     = map plan_type (user_subscriptions d) \<and>
   list_all (\<lambda>r. plan_type r = Free \<and> status r = ''active'')
     (drop (length (user_subscriptions d))
        (user_subscriptions (snd (handleCheckoutCompleted now session d)))) \<and>
   (\<forall>u. planTypeOf (find (\<lambda>s. s_user_id s = u)
                       (user_subscriptions (snd (handleCheckoutCompleted now session d))))
        = planTypeOf (find (\<lambda>s. s_user_id s = u) (user_subscriptions d)))"
proof -
  let ?S = "user_subscriptions (snd (handleCheckoutCompleted now session d))"
  let ?sd = "checkout_data now session"
  have pt: "\<And>r. plan_type (apply_data ?sd r) = plan_type r"
    by (simp add: apply_data_sel checkout_data_plan)
  consider (same) "?S = user_subscriptions d"
    | (upd) u where
        "?S = map (\<lambda>r. if s_user_id r = u then apply_data ?sd r else r) (user_subscriptions d)"
    | (ins) u where "find (\<lambda>s. s_user_id s = u) (user_subscriptions d) = None"
        "?S = user_subscriptions d @ [apply_data ?sd (default_sub u now)]"
    using checkout_rows[of now session d] by blast
  then show ?thesis
  proof cases
    case same
    then show ?thesis by simp
  next
    case upd
    have "\<And>v. find (\<lambda>s. s_user_id s = v) ?S =
        map_option (\<lambda>r. if s_user_id r = u then apply_data ?sd r else r)
          (find (\<lambda>s. s_user_id s = v) (user_subscriptions d))"
      unfolding upd by (rule find_map_same) (simp add: apply_data_sel)
    then show ?thesis
      unfolding upd
      by (auto simp: pt planTypeOf_def o_def split: option.splits intro!: map_cong[OF refl])
  next
    case ins
    then show ?thesis
      by (auto simp: pt find_snoc planTypeOf_def default_sub_def apply_data_sel
          checkout_data_def no_data_def split: option.splits)
  qed
qed

text \<open>For a user without a subscription the checkout does create the row, on the free plan.\<close>

theorem checkout_keeps_plan_type_witness:
  "user_subscriptions store_new = [] \<and>
   map plan_type (user_subscriptions (snd (handleCheckoutCompleted 5 checkout_alice store_new)))
     = [Free] \<and>
   map status (user_subscriptions (snd (handleCheckoutCompleted 5 checkout_alice store_new)))
     = [''active''] \<and>
   planTypeOf (find (\<lambda>s. s_user_id s = ''u1'')
       (user_subscriptions (snd (handleCheckoutCompleted 5 checkout_alice store_new)))) = Free"
  using checkout_keeps_plan_type[of store_new 5 checkout_alice]
  by (simp add: store_new_def checkout_alice_def alice_def handleCheckoutCompleted_def
      getUserByEmail_def updateUserSubscription_def db_get_def db_run_def next_fault_def
      consume_fault_def await_def try_catch_def insert_sub_def status_check_def unique_check_def
      checkout_data_def no_data_def apply_data_def default_sub_def planTypeOf_def)

subsection \<open>Updates by subscription reference\<close>

lemma map_unmatched: "filter P xs = [] \<Longrightarrow> map (\<lambda>r. if P r then f r else r) xs = xs"
  by (induction xs) (auto split: if_splits)

lemma update_by_id_ok:
  assumes "\<not> next_fault d" "status_check sd" "set_stripe_subscription_id sd = None"
  shows "updateSubscriptionByStripeId sid sd d =
           (Inr (), (consume_fault d)\<lparr>user_subscriptions :=
                       updated_rows sid sd (user_subscriptions d)\<rparr>)"
  using assms
  by (auto simp: updateSubscriptionByStripeId_def db_run_def update_subs_def unique_check_def
      updated_rows_def consume_fault_def map_unmatched Let_def)

lemma update_by_id_rows:
  "user_subscriptions (snd (updateSubscriptionByStripeId sid sd d)) = user_subscriptions d \<or>
   user_subscriptions (snd (updateSubscriptionByStripeId sid sd d)) =
     updated_rows sid sd (user_subscriptions d)"
  by (auto simp: updateSubscriptionByStripeId_def db_run_def update_subs_def
      updated_rows_def consume_fault_def console_error_def Let_def)

lemma caught_state:
  "snd (try_catch m (\<lambda>e d'. (Inr (), console_error msg d'))) =
     (case fst m of Inl e \<Rightarrow> console_error msg (snd m) | Inr x \<Rightarrow> snd m)"
  by (cases m) (auto simp: try_catch_def split: sum.splits)

lemma console_error_tables [simp]:
  "users (console_error msg d) = users d"
  "user_subscriptions (console_error msg d) = user_subscriptions d"
  "user_usage (console_error msg d) = user_usage d"
  "faults (console_error msg d) = faults d"
  by (simp_all add: console_error_def)

lemma caught_rows:
  "user_subscriptions (snd (try_catch m (\<lambda>e d'. (Inr (), console_error msg d')))) =
     user_subscriptions (snd m)"
  by (cases m) (auto simp: try_catch_def split: sum.splits)

lemma change_data_sel:
  assumes "change_data now sub = Inr sd"
  shows "set_status sd = Some (sub_status sub)"
    and "set_plan_type sd = Some (planTypeOfAmount (unit_amount sub))"
    and "set_stripe_subscription_id sd = None"
  using assms by (auto simp: change_data_def no_data_def split: sum.splits)


lemma change_rows:
  "user_subscriptions (snd (handleSubscriptionChange now sub d)) =
     (case change_data now sub of
        Inl e \<Rightarrow> user_subscriptions d
      | Inr sd \<Rightarrow>
          user_subscriptions (snd (updateSubscriptionByStripeId (Some (sub_id sub)) sd d)))"
  by (cases "change_data now sub")
     (simp_all add: handleSubscriptionChange_def caught_rows)

lemma deleted_data_sel:
  "set_status (deleted_data now) = Some ''canceled''"
  "set_plan_type (deleted_data now) = Some Free"
  "set_stripe_subscription_id (deleted_data now) = None"
  "status_check (deleted_data now)"
  by (simp_all add: deleted_data_def no_data_def status_check_def)

lemma planTypeOfAmount_cases:
  "planTypeOfAmount (Some 999) = Pro"
  "planTypeOfAmount (Some 2999) = Premium"
  "a \<noteq> Some 999 \<Longrightarrow> a \<noteq> Some 2999 \<Longrightarrow> planTypeOfAmount a = Free"
  by (auto simp: planTypeOfAmount_def split: option.splits)




text \<open>
  C8: when the store does not fail on the first delivery of a
  \<open>customer.subscription.deleted\<close> event, a subscription with the event's reference is
  canceled and on the free plan after one delivery and after two, and the second delivery
  changes no status and no plan in the table (whether or not the store fails on it).
\<close>

theorem subscription_deleted_twice:
  assumes "\<not> next_fault d"
    and "i < length (user_subscriptions d)"
    and "stripe_subscription_id (user_subscriptions d ! i) = Some (sub_id sub)"
    and "d' = snd (stripe_webhook t (Some (CustomerSubscriptionDeleted sub)) d)"
    and "d'' = snd (stripe_webhook t' (Some (CustomerSubscriptionDeleted sub)) d')"
  shows "status (user_subscriptions d' ! i) = ''canceled'' \<and>
         plan_type (user_subscriptions d' ! i) = Free \<and>
         status (user_subscriptions d'' ! i) = ''canceled'' \<and>
         plan_type (user_subscriptions d'' ! i) = Free \<and>
         map status (user_subscriptions d'') = map status (user_subscriptions d') \<and>
         map plan_type (user_subscriptions d'') = map plan_type (user_subscriptions d')"
proof -
  let ?sid = "Some (sub_id sub)"
  have r1: "user_subscriptions d' = updated_rows ?sid (deleted_data t) (user_subscriptions d)"
    using assms(1,4)
    by (simp add: webhook_state handle_event_def handleSubscriptionDeleted_def update_by_id_ok
        deleted_data_sel try_catch_def)
  have "user_subscriptions d'' =
          user_subscriptions (snd (updateSubscriptionByStripeId ?sid (deleted_data t') d'))"
    using assms(5)
    by (simp add: webhook_state handle_event_def handleSubscriptionDeleted_def caught_state
        split: sum.splits)
  then have r2: "user_subscriptions d'' = user_subscriptions d' \<or>
      user_subscriptions d'' = updated_rows ?sid (deleted_data t') (user_subscriptions d')"
    using update_by_id_rows[of ?sid "deleted_data t'" d'] by simp
  have first: "status (user_subscriptions d' ! i) = ''canceled'' \<and>
         plan_type (user_subscriptions d' ! i) = Free"
    using assms(2,3) unfolding r1
    by (simp add: updated_rows_def has_stripe_id_def apply_data_sel deleted_data_sel)
  have same: "map status (updated_rows ?sid (deleted_data t') (user_subscriptions d'))
                = map status (user_subscriptions d') \<and>
              map plan_type (updated_rows ?sid (deleted_data t') (user_subscriptions d'))
                = map plan_type (user_subscriptions d')"
    unfolding r1
    by (auto simp: updated_rows_def has_stripe_id_def apply_data_sel deleted_data_sel)
  have len: "i < length (user_subscriptions d')"
    using assms(2) by (simp add: r1 updated_rows_def)
  from r2 show ?thesis
  proof
    assume "user_subscriptions d'' = user_subscriptions d'"
    then show ?thesis using first by simp
  next
    assume u: "user_subscriptions d'' = updated_rows ?sid (deleted_data t') (user_subscriptions d')"
    have "status (user_subscriptions d'' ! i) = map status (user_subscriptions d'') ! i"
      "plan_type (user_subscriptions d'' ! i) = map plan_type (user_subscriptions d'') ! i"
      using len by (simp_all add: u updated_rows_def)
    then show ?thesis using first same len by (simp add: u)
  qed
qed

theorem subscription_deleted_twice_witness:
  "\<not> next_fault store_pro \<and> (0::nat) < length (user_subscriptions store_pro) \<and>
   stripe_subscription_id (user_subscriptions store_pro ! 0) = Some ''sub_1'' \<and>
   status (user_subscriptions store_pro ! 0) = ''active'' \<and>
   plan_type (user_subscriptions store_pro ! 0) = Pro \<and>
   status (user_subscriptions (snd (stripe_webhook 8 (Some deleted_sub_1)
       (snd (stripe_webhook 7 (Some deleted_sub_1) store_pro)))) ! 0) = ''canceled'' \<and>
   plan_type (user_subscriptions (snd (stripe_webhook 8 (Some deleted_sub_1)
       (snd (stripe_webhook 7 (Some deleted_sub_1) store_pro)))) ! 0) = Free"
  using subscription_deleted_twice[where d = store_pro and i = 0 and t = 7 and t' = 8
      and sub = "\<lparr>sub_id = ''sub_1'', sub_status = ''canceled'', unit_amount = Some 999,
                    sub_period_start = Some 1, sub_period_end = Some 2\<rparr>"
      and d' = "snd (stripe_webhook 7 (Some deleted_sub_1) store_pro)"
      and d'' = "snd (stripe_webhook 8 (Some deleted_sub_1)
                  (snd (stripe_webhook 7 (Some deleted_sub_1) store_pro)))"]
  by (simp add: store_pro_def store_new_def alice_sub_def deleted_sub_1_def next_fault_def)

subsection \<open>A successful payment\<close>

lemma succeeded_data_sel:
  "set_status (succeeded_data now) = None"
  "set_plan_type (succeeded_data now) = None"
  "set_stripe_subscription_id (succeeded_data now) = None"
  "set_payment_status (succeeded_data now) = Some PayActive"
  "set_last_payment_date (succeeded_data now) = Some now"
  "status_check (succeeded_data now)"
  by (simp_all add: succeeded_data_def no_data_def status_check_def)

lemma has_stripe_id_apply:
  "set_stripe_subscription_id sd = None \<Longrightarrow>
   has_stripe_id sid (apply_data sd r) = has_stripe_id sid r"
  by (simp add: has_stripe_id_def apply_data_sel split: option.splits)

lemma find_updated_rows:
  assumes "set_stripe_subscription_id sd = None"
  shows "find (has_stripe_id sid) (updated_rows sid sd rows) =
           map_option (apply_data sd) (find (has_stripe_id sid) rows)"
  using assms by (induction rows) (auto simp: updated_rows_def has_stripe_id_apply)

text \<open>The state after a payment when nothing fails.\<close>

lemma payment_succeeded_state:
  assumes "faults d = []"
    and "find (has_stripe_id (invoice_subscription invoice)) (user_subscriptions d) = Some r"
  shows "snd (handlePaymentSucceeded now invoice d) =
     d\<lparr>user_subscriptions :=
          updated_rows (invoice_subscription invoice) (succeeded_data now) (user_subscriptions d),
        user_usage :=
          map (\<lambda>g. if g_user_id g = s_user_id r
                    then g\<lparr>usage_count := 0, last_reset_date := now, g_updated_at := now\<rparr>
                    else g) (user_usage d)\<rparr>"
proof -
  let ?sid = "invoice_subscription invoice"
  let ?d1 = "d\<lparr>user_subscriptions := updated_rows ?sid (succeeded_data now) (user_subscriptions d)\<rparr>"
  have nf: "\<not> next_fault d" "consume_fault d = d"
    using assms(1) by (simp_all add: no_fault_simps)
  have u: "updateSubscriptionByStripeId ?sid (succeeded_data now) d = (Inr (), ?d1)"
    using update_by_id_ok[OF nf(1) succeeded_data_sel(6) succeeded_data_sel(3), of ?sid]
    by (simp add: nf(2))
  have f1: "faults ?d1 = []" using assms(1) by simp
  have g: "getSubscriptionByStripeId ?sid ?d1 = (Inr (Some (apply_data (succeeded_data now) r)), ?d1)"
    using f1 assms(2)
    by (simp add: getSubscriptionByStripeId_def db_get_def no_fault_simps
        find_updated_rows succeeded_data_sel)
  show ?thesis
    using f1
    by (simp add: handlePaymentSucceeded_def u g await_def try_catch_def resetUserUsage_def
        db_run_def no_fault_simps apply_data_sel)
qed

lemma limit_positive:
  assumes "feature \<in> set (map fst (PLAN_LIMITS Free))"
  shows "\<exists>n. js_get (PLAN_LIMITS p) feature = Num n \<and> (n = -1 \<or> 0 < n)"
  using assms by (cases p) (auto simp: js_get_def PLAN_LIMITS_def)

lemma recognized_truthy:
  assumes "feature \<in> set (map fst (PLAN_LIMITS Free))"
  shows "truthy (js_get (PLAN_LIMITS Free) feature)"
  using assms by (auto simp: js_get_def PLAN_LIMITS_def truthy_def)

lemma currentUsageOf_reset:
  "list_all (\<lambda>g. usage_count g = 0) usage \<Longrightarrow> currentUsageOf usage feature = 0"
  by (induction usage) (auto simp: currentUsageOf_def)

lemma can_use_ok:
  assumes "faults d = []" "truthy (js_get (PLAN_LIMITS Free) feature)"
  shows "can_use userId feature d =
     (let planType = planTypeOf (find (\<lambda>s. s_user_id s = userId) (user_subscriptions d));
          currentUsage = currentUsageOf (filter (\<lambda>g. g_user_id g = userId) (user_usage d)) feature;
          limit = js_get (PLAN_LIMITS planType) feature
      in (CanUseReply (limit = Num (-1) \<or> js_lt currentUsage limit) currentUsage limit
            (limit = Num (-1)) planType, d))"
  using assms
  by (simp add: can_use_def getUserUsage_def getUserSubscription_def db_get_def no_fault_simps
      Let_def)

text \<open>
  C7: when no store call fails and a stored subscription has the invoice's reference, the
  delivery of \<open>invoice.payment_succeeded\<close> leaves every subscription with that reference
  with \<open>payment_status\<close> active and \<open>last_payment_date\<close> now, every usage row of the
  owning user at 0 (none added or removed), and \<open>/can-use\<close> then answers
  \<open>canUse: true\<close> with a current usage of 0 for every recognized feature, whatever the
  usage was before.
\<close>

theorem payment_succeeded_resets_usage:
  assumes "faults d = []"
    and "find (has_stripe_id (invoice_subscription invoice)) (user_subscriptions d) = Some r"
    and "feature \<in> set (map fst (PLAN_LIMITS Free))"
    and "d' = snd (stripe_webhook now (Some (InvoicePaymentSucceeded invoice)) d)"
  shows "map_option (\<lambda>s. (s_user_id s, payment_status s, last_payment_date s))
           (find (has_stripe_id (invoice_subscription invoice)) (user_subscriptions d'))
           = Some (s_user_id r, PayActive, Some now) \<and>
         list_all (\<lambda>s. payment_status s = PayActive \<and> last_payment_date s = Some now)
           (filter (has_stripe_id (invoice_subscription invoice)) (user_subscriptions d')) \<and>
         list_all (\<lambda>g. usage_count g = 0)
           (filter (\<lambda>g. g_user_id g = s_user_id r) (user_usage d')) \<and>
         length (user_usage d') = length (user_usage d) \<and>
         (\<exists>limit unlimited planType.
            fst (can_use (s_user_id r) feature d') = CanUseReply True 0 limit unlimited planType)"
proof -
  let ?sid = "invoice_subscription invoice"
  let ?S = "updated_rows ?sid (succeeded_data now) (user_subscriptions d)"
  let ?U = "map (\<lambda>g. if g_user_id g = s_user_id r
                    then g\<lparr>usage_count := 0, last_reset_date := now, g_updated_at := now\<rparr>
                    else g) (user_usage d)"
  have d': "d' = d\<lparr>user_subscriptions := ?S, user_usage := ?U\<rparr>"
    using assms(4) payment_succeeded_state[OF assms(1,2)] by (simp add: webhook_state handle_event_def)
  have a: "find (has_stripe_id ?sid) ?S = Some (apply_data (succeeded_data now) r)"
    using assms(2) by (simp add: find_updated_rows succeeded_data_sel)
  have b: "list_all (\<lambda>s. payment_status s = PayActive \<and> last_payment_date s = Some now)
           (filter (has_stripe_id ?sid) ?S)"
    by (induction "user_subscriptions d")
       (auto simp: updated_rows_def list_all_iff apply_data_sel succeeded_data_sel)
  have c: "list_all (\<lambda>g. usage_count g = 0) (filter (\<lambda>g. g_user_id g = s_user_id r) ?U)"
    by (auto simp: list_all_iff)
  have f: "faults d' = []" using assms(1) d' by simp
  obtain n where n: "js_get (PLAN_LIMITS (planTypeOf (find (\<lambda>s. s_user_id s = s_user_id r) ?S))) feature = Num n"
     "n = -1 \<or> 0 < n"
    using limit_positive[OF assms(3)] by blast
  have tabs: "user_subscriptions d' = ?S" "user_usage d' = ?U"
    by (simp_all add: d')
  have e: "\<exists>limit unlimited planType.
            fst (can_use (s_user_id r) feature d') = CanUseReply True 0 limit unlimited planType"
    unfolding can_use_ok[OF f recognized_truthy[OF assms(3)]] tabs
    using n c by (auto simp: Let_def currentUsageOf_reset js_lt_def)
  show ?thesis
    using a b c e by (simp add: d' apply_data_sel succeeded_data_sel)
qed

theorem payment_succeeded_resets_usage_witness:
  "faults store_at_limit = [] \<and>
   find (has_stripe_id (Some ''sub_1'')) (user_subscriptions store_at_limit)
     = Some alice_checked_out \<and>
   ''assessment'' \<in> set (map fst (PLAN_LIMITS Free)) \<and>
   fst (can_use ''u1'' ''assessment'' store_at_limit) = CanUseReply False 2 (Num 2) False Free \<and>
   map usage_count (user_usage
     (snd (stripe_webhook 9 (Some (InvoicePaymentSucceeded \<lparr>invoice_subscription = Some ''sub_1''\<rparr>))
        store_at_limit))) = [0] \<and>
   fst (can_use ''u1'' ''assessment''
     (snd (stripe_webhook 9 (Some (InvoicePaymentSucceeded \<lparr>invoice_subscription = Some ''sub_1''\<rparr>))
        store_at_limit))) = CanUseReply True 0 (Num 2) False Free"
  using payment_succeeded_resets_usage[where d = store_at_limit
      and invoice = "\<lparr>invoice_subscription = Some ''sub_1''\<rparr>" and r = alice_checked_out
      and feature = "''assessment''" and now = 9
      and d' = "snd (stripe_webhook 9
                  (Some (InvoicePaymentSucceeded \<lparr>invoice_subscription = Some ''sub_1''\<rparr>))
                  store_at_limit)"]
  by (simp add: store_at_limit_def store_new_def alice_checked_out_def alice_sub_def
      has_stripe_id_def PLAN_LIMITS_def can_use_def getUserUsage_def getUserSubscription_def
      db_get_def db_run_def next_fault_def consume_fault_def truthy_def js_get_def js_lt_def
      planTypeOf_def currentUsageOf_def stripe_webhook_def handle_event_def
      handlePaymentSucceeded_def updateSubscriptionByStripeId_def getSubscriptionByStripeId_def
      resetUserUsage_def update_subs_def await_def try_catch_def status_check_def
      unique_check_def succeeded_data_def no_data_def apply_data_def)

subsection \<open>The tier of a subscription that is free or canceled\<close>

lemma failed_data_sel:
  "set_status (failed_data now) = None"
  "set_plan_type (failed_data now) = None"
  by (simp_all add: failed_data_def no_data_def)

lemma checkout_data_sel:
  "set_status (checkout_data now session) = Some ''active''"
  by (simp_all add: checkout_data_def no_data_def)

lemma tier_ok_updated:
  assumes "list_all tier_ok rows" "\<And>r. tier_ok r \<Longrightarrow> tier_ok (apply_data sd r)"
  shows "list_all tier_ok (updated_rows sid sd rows)"
  using assms by (induction rows) (auto simp: updated_rows_def)

lemma tier_ok_by_id:
  assumes "tier_invariant d" "\<And>r. tier_ok r \<Longrightarrow> tier_ok (apply_data sd r)"
  shows "list_all tier_ok (user_subscriptions (snd (updateSubscriptionByStripeId sid sd d)))"
  using update_by_id_rows[of sid sd d] tier_ok_updated[OF _ assms(2), of "user_subscriptions d" sid]
    assms(1)
  by (auto simp: tier_invariant_def)

lemma payment_succeeded_rows:
  "user_subscriptions (snd (handlePaymentSucceeded now invoice d)) =
     user_subscriptions (snd (updateSubscriptionByStripeId (invoice_subscription invoice)
                                (succeeded_data now) d))"
  by (cases "updateSubscriptionByStripeId (invoice_subscription invoice) (succeeded_data now) d")
     (auto simp: handlePaymentSucceeded_def await_def try_catch_def getSubscriptionByStripeId_def
       resetUserUsage_def db_get_def db_run_def consume_fault_def console_error_def
       split: sum.splits option.splits)

lemma change_keeps_tier:
  assumes "tier_invariant d"
    and "sub_status sub \<in> set [''free'', ''canceled''] \<longrightarrow>
         unit_amount sub \<notin> {Some 999, Some 2999}"
  shows "tier_invariant (snd (handleSubscriptionChange now sub d))"
proof (cases "change_data now sub")
  case (Inl e)
  then show ?thesis
    using assms(1) by (simp add: tier_invariant_def change_rows)
next
  case (Inr sd)
  note sel = change_data_sel[OF Inr]
  have "\<And>r. tier_ok (apply_data sd r)"
    using assms(2) by (auto simp: tier_ok_def apply_data_sel sel planTypeOfAmount_cases)
  then show ?thesis
    using tier_ok_by_id[OF assms(1), of sd "Some (sub_id sub)"]
    by (simp add: tier_invariant_def change_rows Inr)
qed

lemma event_keeps_tier:
  assumes "tier_invariant d" "keeps_tier ev"
  shows "tier_invariant (snd (handle_event now ev d))"
proof (cases ev)
  case (CheckoutSessionCompleted session)
  have act: "\<And>r. tier_ok (apply_data (checkout_data now session) r)"
    by (simp add: tier_ok_def apply_data_sel checkout_data_sel)
  show ?thesis
    using checkout_rows[of now session d] assms(1) act
    unfolding CheckoutSessionCompleted
    by (auto simp: handle_event_def tier_invariant_def list_all_iff)
next
  case (CustomerSubscriptionCreated sub)
  then show ?thesis
    using assms change_keeps_tier[of d sub now]
    by (simp add: handle_event_def keeps_tier_def)
next
  case (CustomerSubscriptionUpdated sub)
  then show ?thesis
    using assms change_keeps_tier[of d sub now]
    by (simp add: handle_event_def keeps_tier_def)
next
  case (CustomerSubscriptionDeleted sub)
  have "\<And>r. tier_ok (apply_data (deleted_data now) r)"
    by (simp add: tier_ok_def apply_data_sel deleted_data_sel)
  then show ?thesis
    using tier_ok_by_id[OF assms(1), of "deleted_data now" "Some (sub_id sub)"]
    unfolding CustomerSubscriptionDeleted
    by (simp add: handle_event_def handleSubscriptionDeleted_def caught_rows tier_invariant_def)
next
  case (InvoicePaymentSucceeded invoice)
  have "\<And>r. tier_ok r \<Longrightarrow> tier_ok (apply_data (succeeded_data now) r)"
    by (simp add: tier_ok_def apply_data_sel succeeded_data_sel)
  then show ?thesis
    using tier_ok_by_id[OF assms(1), of "succeeded_data now" "invoice_subscription invoice"]
    unfolding InvoicePaymentSucceeded
    by (simp add: handle_event_def payment_succeeded_rows tier_invariant_def)
next
  case (InvoicePaymentFailed invoice)
  have "\<And>r. tier_ok r \<Longrightarrow> tier_ok (apply_data (failed_data now) r)"
    by (simp add: tier_ok_def apply_data_sel failed_data_sel)
  then show ?thesis
    using tier_ok_by_id[OF assms(1), of "failed_data now" "invoice_subscription invoice"]
    unfolding InvoicePaymentFailed
    by (simp add: handle_event_def handlePaymentFailed_def caught_rows tier_invariant_def)
next
  case (OtherEvent x)
  then show ?thesis using assms(1) by (simp add: handle_event_def)
qed

text \<open>
  C4 as stated fails: a \<open>customer.subscription.updated\<close> event with status canceled and an
  amount of 999, delivered to a store that satisfies the invariant, leaves a subscription
  that is canceled and on the pro plan.
\<close>

theorem tier_invariant_broken:
  "tier_invariant store_pro \<and>
   \<not> tier_invariant (deliveries [(7, CustomerSubscriptionUpdated cancel_on_pro)] store_pro) \<and>
   map (\<lambda>r. (status r, plan_type r))
     (user_subscriptions (deliveries [(7, CustomerSubscriptionUpdated cancel_on_pro)] store_pro))
     = [(''canceled'', Pro)]"
  by (simp add: tier_invariant_def tier_ok_def store_pro_def store_new_def alice_sub_def
      cancel_on_pro_def stripe_webhook_def handle_event_def handleSubscriptionChange_def
      updateSubscriptionByStripeId_def db_run_def update_subs_def next_fault_def
      consume_fault_def try_catch_def status_check_def unique_check_def change_data_def
      toISOString_def valid_date_def no_data_def apply_data_def has_stripe_id_def
      planTypeOfAmount_def)

text \<open>
  C4, amended: the invariant is kept by every delivery of a checkout, a subscription
  deletion, a payment success, a payment failure or an unknown event, and by every
  subscription change except one whose status is free or canceled while its amount is 999
  or 2999. So it holds after any sequence of deliveries without such a change, from a store
  where it holds, whatever storage failures occur.
\<close>

theorem tier_invariant_kept:
  assumes "tier_invariant d" "list_all (\<lambda>e. keeps_tier (snd e)) evs"
  shows "tier_invariant (deliveries evs d)"
  using assms
proof (induction evs arbitrary: d)
  case Nil
  then show ?case by simp
next
  case (Cons e evs)
  obtain now ev where e: "e = (now, ev)" by (cases e)
  have "tier_invariant (snd (stripe_webhook now (Some ev) d))"
    using Cons.prems e by (simp add: webhook_state event_keeps_tier)
  then show ?case
    using Cons.IH Cons.prems(2) e by simp
qed

theorem tier_invariant_kept_witness:
  "tier_invariant store_pro \<and>
   keeps_tier (CheckoutSessionCompleted checkout_alice) \<and>
   keeps_tier (CustomerSubscriptionUpdated upgrade_sub_1) \<and>
   keeps_tier deleted_sub_1 \<and>
   tier_invariant (deliveries [(5, CheckoutSessionCompleted checkout_alice),
     (6, CustomerSubscriptionUpdated upgrade_sub_1), (7, deleted_sub_1)] store_pro) \<and>
   map (\<lambda>r. (status r, plan_type r)) (user_subscriptions (deliveries
     [(5, CheckoutSessionCompleted checkout_alice),
      (6, CustomerSubscriptionUpdated upgrade_sub_1), (7, deleted_sub_1)] store_pro))
     = [(''canceled'', Free)]"
  using tier_invariant_kept[of store_pro "[(5, CheckoutSessionCompleted checkout_alice),
     (6, CustomerSubscriptionUpdated upgrade_sub_1), (7, deleted_sub_1)]"]
  by (simp add: tier_invariant_def tier_ok_def keeps_tier_def store_pro_def store_new_def
      alice_sub_def alice_def checkout_alice_def upgrade_sub_1_def deleted_sub_1_def
      stripe_webhook_def handle_event_def handleCheckoutCompleted_def
      handleSubscriptionChange_def handleSubscriptionDeleted_def getUserByEmail_def
      updateUserSubscription_def updateSubscriptionByStripeId_def db_get_def db_run_def
      update_subs_def next_fault_def consume_fault_def await_def try_catch_def
      status_check_def unique_check_def checkout_data_def change_data_def deleted_data_def
      toISOString_def valid_date_def no_data_def apply_data_def has_stripe_id_def
      planTypeOfAmount_def)

subsection \<open>The usage routes when the storage does not fail\<close>

lemma find_filter: "find P (filter Q xs) = find (\<lambda>x. Q x \<and> P x) xs"
  by (induction xs) auto

lemma find_None_filter: "find P xs = None \<Longrightarrow> filter P xs = []"
  by (induction xs) (auto split: if_splits)

lemma used_find:
  "used userId feature d =
     (case find (is_usage_of userId feature) (user_usage d) of
        Some row \<Rightarrow> usage_count row | None \<Rightarrow> 0)"
  by (simp add: used_def currentUsageOf_def find_filter is_usage_of_def[abs_def])

lemma recognized_check:
  "feature \<in> set (map fst (PLAN_LIMITS Free)) \<Longrightarrow>
   feature \<in> set [''assessment'', ''journal_entry'', ''habit_tracking'', ''ai_insights'']"
  by (simp add: PLAN_LIMITS_def)

lemma incrementUsage_ok:
  assumes "faults d = []" "feature \<in> set (map fst (PLAN_LIMITS Free))"
  shows "incrementUsage userId feature now d =
           (Inr (used userId feature d + 1),
            d\<lparr>user_usage := incremented_usage userId feature now (user_usage d)\<rparr>)"
proof (cases "find (is_usage_of userId feature) (user_usage d)")
  case None
  then show ?thesis
    using assms(1) recognized_check[OF assms(2)] find_None_filter[OF None]
    by (simp add: incrementUsage_def db_get_def db_run_def no_fault_simps await_def
        insert_usage_def used_find incremented_usage_def)
next
  case (Some row)
  then show ?thesis
    using assms(1)
    by (simp add: incrementUsage_def db_get_def db_run_def no_fault_simps await_def
        bump_usage_def used_find incremented_usage_def)
qed

lemma increment_ok:
  assumes "faults d = []" "feature \<in> set (map fst (PLAN_LIMITS Free))"
  shows "increment userId feature now d =
     (let planType = resolved_plan userId d;
          currentUsage = used userId feature d;
          limit = js_get (PLAN_LIMITS planType) feature
      in if limit \<noteq> Num (-1) \<and> js_ge currentUsage limit
         then (UsageLimitExceeded currentUsage limit planType, d)
         else (IncrementReply (currentUsage + 1) limit (limit = Num (-1)) planType,
               d\<lparr>user_usage := incremented_usage userId feature now (user_usage d)\<rparr>))"
  using assms
  by (simp add: increment_def recognized_truthy getUserUsage_def getUserSubscription_def
      db_get_def no_fault_simps Let_def incrementUsage_ok used_def resolved_plan_def)

lemma stats_ok:
  assumes "faults d = []"
  shows "reply_plan (fst (stats userId d)) = Some (resolved_plan userId d)"
  using assms
  by (simp add: stats_def getUserUsage_def getUserSubscription_def db_get_def no_fault_simps
      Let_def reply_plan_def resolved_plan_def)

text \<open>
  C3 as stated fails: for a subscription that is canceled with \<open>plan_type\<close> pro, the
  routes resolve the plan to pro (limit 10), not to free.
\<close>

theorem canceled_resolves_to_stored_tier:
  "map (\<lambda>r. (s_user_id r, status r, plan_type r)) (user_subscriptions canceled_pro)
     = [(''u1'', ''canceled'', Pro)] \<and>
   fst (can_use ''u1'' ''assessment'' canceled_pro) = CanUseReply True 0 (Num 10) False Pro \<and>
   fst (increment ''u1'' ''assessment'' 5 canceled_pro) = IncrementReply 1 (Num 10) False Pro"
  by (simp add: canceled_pro_def store_new_def alice_sub_def can_use_def increment_def
      getUserUsage_def getUserSubscription_def incrementUsage_def db_get_def db_run_def
      insert_usage_def is_usage_of_def next_fault_def consume_fault_def await_def
      PLAN_LIMITS_def js_get_def truthy_def js_lt_def js_ge_def planTypeOf_def
      currentUsageOf_def)

text \<open>
  C3, amended: when the storage does not fail, \<open>/stats\<close>, \<open>/can-use\<close> and \<open>/increment\<close>
  resolve the plan to free for a user without a subscription row and to the stored
  \<open>plan_type\<close> for a user with one; the status of the subscription is not read.
\<close>

theorem plan_resolved_from_plan_type:
  assumes "faults d = []"
    and "feature \<in> set (map fst (PLAN_LIMITS Free))"
    and "resolved = (case find (\<lambda>s. s_user_id s = userId) (user_subscriptions d) of
                       None \<Rightarrow> Free | Some s \<Rightarrow> plan_type s)"
  shows "reply_plan (fst (stats userId d)) = Some resolved \<and>
         reply_plan (fst (can_use userId feature d)) = Some resolved \<and>
         reply_plan (fst (increment userId feature now d)) = Some resolved"
proof -
  have r: "resolved = resolved_plan userId d"
    using assms(3) by (simp add: resolved_plan_def planTypeOf_def split: option.splits)
  show ?thesis
    using stats_ok[OF assms(1)]
    by (simp add: r can_use_ok[OF assms(1) recognized_truthy[OF assms(2)]]
        increment_ok[OF assms(1,2)] Let_def reply_plan_def resolved_plan_def)
qed

theorem plan_resolved_from_plan_type_witness:
  "faults store_pro = [] \<and> faults store_new = [] \<and>
   ''assessment'' \<in> set (map fst (PLAN_LIMITS Free)) \<and>
   find (\<lambda>s. s_user_id s = ''u1'') (user_subscriptions store_new) = None \<and>
   reply_plan (fst (can_use ''u1'' ''assessment'' store_new)) = Some Free \<and>
   reply_plan (fst (increment ''u1'' ''assessment'' 5 store_new)) = Some Free \<and>
   reply_plan (fst (stats ''u1'' store_new)) = Some Free \<and>
   reply_plan (fst (can_use ''u1'' ''assessment'' store_pro)) = Some Pro"
  using plan_resolved_from_plan_type[where d = store_new and feature = "''assessment''"
      and userId = "''u1''" and resolved = Free and now = 5]
    plan_resolved_from_plan_type[where d = store_pro and feature = "''assessment''"
      and userId = "''u1''" and resolved = Pro and now = 5]
  by (simp add: store_new_def store_pro_def alice_sub_def PLAN_LIMITS_def)

subsection \<open>Calls of /increment one after the other\<close>

lemma own_key:
  "js_get (PLAN_LIMITS p) feature = Num q \<Longrightarrow> feature \<in> set (map fst (PLAN_LIMITS Free))"
  by (cases p) (auto simp: js_get_def PLAN_LIMITS_def split: if_splits)

lemma quota_positive:
  "js_get (PLAN_LIMITS p) feature = Num q \<Longrightarrow> q \<noteq> -1 \<Longrightarrow> 0 < q"
  by (cases p) (auto simp: js_get_def PLAN_LIMITS_def split: if_splits)

lemma used_incremented:
  "used userId feature (d\<lparr>user_usage := incremented_usage userId feature now (user_usage d)\<rparr>)
     = used userId feature d + 1"
proof (cases "find (is_usage_of userId feature) (user_usage d)")
  case None
  then show ?thesis
    by (simp add: used_find incremented_usage_def find_snoc is_usage_of_def)
next
  case (Some row)
  have "find (is_usage_of userId feature)
          (map (\<lambda>g. if is_usage_of userId feature g
                 then g\<lparr>usage_count := usage_count g + 1, g_updated_at := now\<rparr> else g)
             (user_usage d))
        = map_option (\<lambda>g. if is_usage_of userId feature g
                 then g\<lparr>usage_count := usage_count g + 1, g_updated_at := now\<rparr> else g)
            (find (is_usage_of userId feature) (user_usage d))"
    by (rule find_map_same) (simp add: is_usage_of_def)
  moreover have "is_usage_of userId feature row"
    using Some by (auto simp: find_Some_iff)
  ultimately show ?thesis
    using Some by (simp add: used_find incremented_usage_def)
qed

lemma increment_below:
  assumes "faults d = []"
    and "js_get (PLAN_LIMITS (resolved_plan userId d)) feature = Num q"
    and "used userId feature d < q"
  shows "increment userId feature now d =
           (IncrementReply (used userId feature d + 1) (Num q) (q = -1) (resolved_plan userId d),
            d\<lparr>user_usage := incremented_usage userId feature now (user_usage d)\<rparr>)"
  using assms by (simp add: increment_ok[OF assms(1) own_key[OF assms(2)]] Let_def js_ge_def)

lemma increment_at_limit:
  assumes "faults d = []"
    and "js_get (PLAN_LIMITS (resolved_plan userId d)) feature = Num q"
    and "q \<noteq> -1" "q \<le> used userId feature d"
  shows "increment userId feature now d =
           (UsageLimitExceeded (used userId feature d) (Num q) (resolved_plan userId d), d)"
  using assms by (simp add: increment_ok[OF assms(1) own_key[OF assms(2)]] Let_def js_ge_def)

lemma increments_append:
  "increments userId feature (ts @ us) d =
     (fst (increments userId feature ts d) @
        fst (increments userId feature us (snd (increments userId feature ts d))),
      snd (increments userId feature us (snd (increments userId feature ts d))))"
  by (induction ts arbitrary: d) (simp_all add: case_prod_beta)

lemma increments_below:
  assumes "faults d = []"
    and "js_get (PLAN_LIMITS (resolved_plan userId d)) feature = Num q"
    and "q \<noteq> -1"
    and "used userId feature d + int (length ts) \<le> q"
  shows "fst (increments userId feature ts d) =
           map (\<lambda>i. IncrementReply (used userId feature d + 1 + int i) (Num q) False
                      (resolved_plan userId d)) [0..<length ts] \<and>
         used userId feature (snd (increments userId feature ts d))
           = used userId feature d + int (length ts) \<and>
         faults (snd (increments userId feature ts d)) = [] \<and>
         resolved_plan userId (snd (increments userId feature ts d)) = resolved_plan userId d"
  using assms
proof (induction ts arbitrary: d)
  case Nil
  then show ?case by simp
next
  case (Cons now ts)
  let ?d1 = "d\<lparr>user_usage := incremented_usage userId feature now (user_usage d)\<rparr>"
  have lt: "used userId feature d < q" using Cons.prems(4) by simp
  have step: "increment userId feature now d =
      (IncrementReply (used userId feature d + 1) (Num q) False (resolved_plan userId d), ?d1)"
    using increment_below[OF Cons.prems(1,2) lt] Cons.prems(3) by simp
  have p1: "resolved_plan userId ?d1 = resolved_plan userId d"
    by (simp add: resolved_plan_def)
  have u1: "used userId feature ?d1 = used userId feature d + 1"
    by (rule used_incremented)
  have ih: "fst (increments userId feature ts ?d1) =
           map (\<lambda>i. IncrementReply (used userId feature ?d1 + 1 + int i) (Num q) False
                      (resolved_plan userId ?d1)) [0..<length ts] \<and>
         used userId feature (snd (increments userId feature ts ?d1))
           = used userId feature ?d1 + int (length ts) \<and>
         faults (snd (increments userId feature ts ?d1)) = [] \<and>
         resolved_plan userId (snd (increments userId feature ts ?d1)) = resolved_plan userId ?d1"
    using Cons.prems by (intro Cons.IH) (simp_all add: p1 u1)
  show ?case
    using ih by (simp add: step p1 u1 map_upt_Suc case_prod_beta add.assoc del: upt_Suc)
qed

text \<open>
  C2: let the storage not fail, let the plan resolved for the user give the feature a finite
  quota \<open>q\<close>, and let the current usage be 0. Of \<open>q + 1\<close> calls of \<open>/increment\<close> made one
  after the other, the first \<open>q\<close> succeed and report the new usage 1, ..., \<open>q\<close>; the last
  is refused with \<open>Usage limit exceeded\<close>, reporting a current usage of \<open>q\<close> and the limit
  \<open>q\<close>, and leaves the store as the \<open>q\<close> calls left it, with a usage of \<open>q\<close>.
\<close>

theorem quota_enforced_in_sequence:
  assumes "faults d = []"
    and "js_get (PLAN_LIMITS (resolved_plan userId d)) feature = Num q"
    and "q \<noteq> -1"
    and "used userId feature d = 0"
    and "length ts = nat q"
  shows "fst (increments userId feature (ts @ [t]) d) =
           map (\<lambda>i. IncrementReply (int i + 1) (Num q) False (resolved_plan userId d))
             [0..<nat q]
           @ [UsageLimitExceeded q (Num q) (resolved_plan userId d)] \<and>
         snd (increments userId feature (ts @ [t]) d) = snd (increments userId feature ts d) \<and>
         used userId feature (snd (increments userId feature ts d)) = q"
proof -
  let ?d = "snd (increments userId feature ts d)"
  have q: "0 < q" by (rule quota_positive[OF assms(2,3)])
  have len: "used userId feature d + int (length ts) \<le> q"
    using assms(4,5) q by simp
  note b = increments_below[OF assms(1,2,3) len]
  have u: "used userId feature ?d = q" using b assms(4,5) q by simp
  have last: "increment userId feature t ?d =
      (UsageLimitExceeded q (Num q) (resolved_plan userId d), ?d)"
    using increment_at_limit[of ?d userId feature q t] b assms(2,3) u by simp
  show ?thesis
    using b u assms(4,5) by (simp add: increments_append last add.commute)
qed

theorem quota_enforced_in_sequence_witness:
  "faults store_new = [] \<and>
   js_get (PLAN_LIMITS (resolved_plan ''u1'' store_new)) ''assessment'' = Num 2 \<and>
   used ''u1'' ''assessment'' store_new = 0 \<and>
   fst (increments ''u1'' ''assessment'' [5, 6, 7] store_new)
     = [IncrementReply 1 (Num 2) False Free, IncrementReply 2 (Num 2) False Free,
        UsageLimitExceeded 2 (Num 2) Free] \<and>
   snd (increments ''u1'' ''assessment'' [5, 6, 7] store_new)
     = snd (increments ''u1'' ''assessment'' [5, 6] store_new) \<and>
   used ''u1'' ''assessment'' (snd (increments ''u1'' ''assessment'' [5, 6] store_new)) = 2"
proof -
  have plan: "resolved_plan ''u1'' store_new = Free"
    by (simp add: resolved_plan_def planTypeOf_def store_new_def)
  have pre: "faults store_new = []"
    "js_get (PLAN_LIMITS (resolved_plan ''u1'' store_new)) ''assessment'' = Num 2"
    "used ''u1'' ''assessment'' store_new = 0"
    by (simp_all add: plan)
       (simp_all add: store_new_def PLAN_LIMITS_def js_get_def used_def currentUsageOf_def)
  have upt: "[0..<2] = [0, 1::nat]"
    by (simp add: numeral_2_eq_2)
  have "fst (increments ''u1'' ''assessment'' ([5, 6] @ [7]) store_new) =
           map (\<lambda>i. IncrementReply (int i + 1) (Num 2) False (resolved_plan ''u1'' store_new))
             [0..<nat 2]
           @ [UsageLimitExceeded 2 (Num 2) (resolved_plan ''u1'' store_new)] \<and>
         snd (increments ''u1'' ''assessment'' ([5, 6] @ [7]) store_new)
           = snd (increments ''u1'' ''assessment'' [5, 6] store_new) \<and>
         used ''u1'' ''assessment'' (snd (increments ''u1'' ''assessment'' [5, 6] store_new)) = 2"
    by (rule quota_enforced_in_sequence) (simp_all add: pre)
  then show ?thesis
    using pre by (simp add: plan upt del: increments.simps)
qed

subsection \<open>The guard on the feature name\<close>

lemma unknown_feature_rejected:
  assumes "feature \<notin> set (map fst (PLAN_LIMITS Free))" "feature \<notin> set Object_prototype"
  shows "can_use userId feature d = (InvalidFeatureType, d)"
    and "increment userId feature now d = (InvalidFeatureType, d)"
proof -
  have "map_of (PLAN_LIMITS Free) feature = None"
    using assms(1) by (simp add: map_of_eq_None_iff)
  then have "\<not> truthy (js_get (PLAN_LIMITS Free) feature)"
    using assms(2) by (simp add: js_get_def truthy_def)
  then show "can_use userId feature d = (InvalidFeatureType, d)"
    and "increment userId feature now d = (InvalidFeatureType, d)"
    by (simp_all add: can_use_def increment_def)
qed

lemma recognized_feature_accepted:
  assumes "feature \<in> set (map fst (PLAN_LIMITS Free))"
  shows "fst (can_use userId feature d) \<noteq> InvalidFeatureType"
    and "fst (increment userId feature now d) \<noteq> InvalidFeatureType"
  using recognized_truthy[OF assms]
  by (auto simp: can_use_def increment_def internal_error_def Let_def
      split: prod.splits sum.splits)

text \<open>
  C9 says that every feature name outside the four keys of the free plan is rejected with
  \<open>Invalid feature type\<close> by \<open>/can-use\<close> and by \<open>/increment\<close>. The code does not do this
  for \<open>constructor\<close>, a name every object literal inherits: the guard lets it pass,
  \<open>/can-use\<close> answers 200 with \<open>canUse: false\<close>, and \<open>/increment\<close> answers 500 after the
  store has rejected the row. The usage table is unchanged in both cases.
\<close>

theorem inherited_name_passes_guard:
  "''constructor'' \<notin> set (map fst (PLAN_LIMITS Free)) \<and>
   can_use ''u1'' ''constructor'' store_new = (CanUseReply False 0 Inherited False Free, store_new) \<and>
   fst (increment ''u1'' ''constructor'' 5 store_new) = InternalServerError \<and>
   user_usage (snd (increment ''u1'' ''constructor'' 5 store_new)) = user_usage store_new"
  by (simp add: store_new_def can_use_def increment_def getUserUsage_def getUserSubscription_def
      incrementUsage_def db_get_def db_run_def insert_usage_def is_usage_of_def next_fault_def
      consume_fault_def console_error_def internal_error_def await_def PLAN_LIMITS_def
      Object_prototype_def js_get_def truthy_def js_lt_def js_ge_def planTypeOf_def
      currentUsageOf_def)

subsection \<open>Requests in flight\<close>

text \<open>One request run alone, from store call to store call, is the route.\<close>

lemma step_begin:
  "increment_step u f now Begin d =
     (if \<not> truthy (js_get (PLAN_LIMITS Free) f) then (Responded InvalidFeatureType, d)
      else (case getUserUsage u d of
              (Inl e, d1) \<Rightarrow> respond (internal_error ''Increment usage error:'' d1)
            | (Inr usage, d1) \<Rightarrow> (AwaitSubscription usage, d1)))"
  by (simp add: increment_step_def)

lemma step_responded: "increment_step u f now (Responded r) d = (Responded r, d)"
  by (simp add: increment_step_def)

lemma one_request_runs_increment:
  "interleave [\<lparr>req_user = u, req_feature = f, req_time = now\<rparr>] [0, 0, 0, 0] ([Begin], d) =
     ([Responded (fst (increment u f now d))], snd (increment u f now d))"
proof (cases "truthy (js_get (PLAN_LIMITS Free) f)")
  case False
  then show ?thesis by (simp add: increment_def step_begin step_responded)
next
  case True
  show ?thesis
  proof (cases "getUserUsage u d")
    case (Pair r1 d1)
    show ?thesis
    proof (cases r1)
      case (Inl e)
      then show ?thesis using True Pair
        by (simp add: increment_def step_begin step_responded respond_def)
    next
      case (Inr usage)
      show ?thesis
      proof (cases "getUserSubscription u d1")
        case (Pair r2 d2)
        note sub = this
        show ?thesis
        proof (cases r2)
          case (Inl e)
          then show ?thesis using True \<open>getUserUsage u d = (r1, d1)\<close> Inr sub
            by (simp add: increment_def step_begin step_responded respond_def increment_step_def)
        next
          case (Inr subscription)
          then show ?thesis using True \<open>getUserUsage u d = (r1, d1)\<close> \<open>r1 = Inr usage\<close> sub
            by (auto simp: increment_def step_begin step_responded respond_def increment_step_def
                Let_def incrementUsage_def await_def split: prod.splits sum.splits option.splits)
        qed
      qed
    qed
  qed
qed

text \<open>
  C1 says that of two concurrent calls of \<open>/increment\<close> with one unit of quota left exactly
  one succeeds. The code does not do this: with a usage of 1 and a quota of 2, two requests
  whose store calls alternate both read a usage of 1, both pass the check and both
  increment; both are answered with success, and the stored usage is 3.
\<close>

theorem concurrent_increments_exceed_quota:
  "used ''u1'' ''assessment'' store_one_left = 1 \<and>
   js_get (PLAN_LIMITS (resolved_plan ''u1'' store_one_left)) ''assessment'' = Num 2 \<and>
   fst (interleave [first_request, second_request] [0, 1, 0, 1, 0, 1, 0, 1]
          ([Begin, Begin], store_one_left))
     = [Responded (IncrementReply 2 (Num 2) False Free),
        Responded (IncrementReply 2 (Num 2) False Free)] \<and>
   used ''u1'' ''assessment''
     (snd (interleave [first_request, second_request] [0, 1, 0, 1, 0, 1, 0, 1]
          ([Begin, Begin], store_one_left))) = 3"
  by (simp add: store_one_left_def store_new_def first_request_def second_request_def
      used_def resolved_plan_def increment_step_def getUserUsage_def getUserSubscription_def
      db_get_def db_run_def bump_usage_def is_usage_of_def next_fault_def consume_fault_def
      PLAN_LIMITS_def js_get_def truthy_def js_ge_def planTypeOf_def currentUsageOf_def)

end
